theory Spec2Isabelle
  imports Main "HOL-Library.Sublist"
begin

section \<open>cc-switcher: the \<open>cs\<close> launcher of \<open>main.go\<close>\<close>

text \<open>
  A Go \<open>string\<close> is a sequence of bytes and is modelled as a HOL \<open>string\<close>, one
  \<open>char\<close> for each byte. A Go \<open>map[string]T\<close> is modelled as the association list of
  its entries in the order in which the runtime iterates them; the order is not fixed by
  Go, and every statement below holds for any order. The keys of a Go map are unique.
\<close>

subsection \<open>Data model (\<open>main.go\<close>, lines 14 to 23)\<close>

record Environment =
  Target :: string
  Environment :: "(string \<times> string) list"

text \<open>
  \<open>Environments\<close> may be the nil map (\<open>None\<close>). The inner \<open>Environment\<close> map is only
  read through \<open>len\<close> and \<open>range\<close>, under which nil and the empty map are alike.
\<close>

record Config =
  Environments :: "(string \<times> Environment) list option"

subsection \<open>Errors\<close>

text \<open>
  Every error of the program is built by \<open>fmt.Errorf\<close>, with or without a wrapped
  cause; \<open>Error\<close> gives its message. \<open>SysError\<close> is an error that comes from the
  operating system or from a library.
\<close>

datatype error =
    SysError string
  | HomeDirUnavailable error
  | ConfigDirError error
  | ConfigWriteError error
  | ConfigReadError error
  | ConfigParseError error
  | EmptyTarget
  | InvalidTarget

primrec Error :: "error \<Rightarrow> string" where
  "Error (SysError m) = m"
| "Error (HomeDirUnavailable e) = ''failed to get user home directory: '' @ Error e"
| "Error (ConfigDirError e) = ''failed to create config directory: '' @ Error e"
| "Error (ConfigWriteError e) = ''failed to create default config: '' @ Error e"
| "Error (ConfigReadError e) = ''failed to read config file: '' @ Error e"
| "Error (ConfigParseError e) = ''failed to parse config file: '' @ Error e"
| "Error EmptyTarget = ''target command is empty''"
| "Error InvalidTarget = ''invalid target command''"

subsection \<open>\<open>strings.Fields\<close>\<close>

text \<open>
  \<open>strings.Fields\<close> splits a string around each run of code points that
  \<open>unicode.IsSpace\<close> accepts. \<open>space_runes\<close> lists the UTF-8 encodings of these code
  points: U+0009 to U+000D, U+0020, U+0085, U+00A0, U+1680, U+2000 to U+200A, U+2028,
  U+2029, U+202F, U+205F and U+3000. Each has one encoding, and its first byte is never
  a continuation byte, so it always starts a code point when Go decodes the string: the
  scan over bytes below cuts the string where Go does.
\<close>

definition space_runes :: "string list" where
  "space_runes =
    [[CHR 0x09], [CHR 0x0A], [CHR 0x0B], [CHR 0x0C], [CHR 0x0D], [CHR 0x20],
     [CHR 0xC2, CHR 0x85], [CHR 0xC2, CHR 0xA0],
     [CHR 0xE1, CHR 0x9A, CHR 0x80],
     [CHR 0xE2, CHR 0x80, CHR 0x80], [CHR 0xE2, CHR 0x80, CHR 0x81],
     [CHR 0xE2, CHR 0x80, CHR 0x82], [CHR 0xE2, CHR 0x80, CHR 0x83],
     [CHR 0xE2, CHR 0x80, CHR 0x84], [CHR 0xE2, CHR 0x80, CHR 0x85],
     [CHR 0xE2, CHR 0x80, CHR 0x86], [CHR 0xE2, CHR 0x80, CHR 0x87],
     [CHR 0xE2, CHR 0x80, CHR 0x88], [CHR 0xE2, CHR 0x80, CHR 0x89],
     [CHR 0xE2, CHR 0x80, CHR 0x8A],
     [CHR 0xE2, CHR 0x80, CHR 0xA8], [CHR 0xE2, CHR 0x80, CHR 0xA9],
     [CHR 0xE2, CHR 0x80, CHR 0xAF],
     [CHR 0xE2, CHR 0x81, CHR 0x9F],
     [CHR 0xE3, CHR 0x80, CHR 0x80]]"

text \<open>The white-space code point a string starts with, if it starts with one.\<close>

definition leading_space :: "string \<Rightarrow> string option" where
  "leading_space s = find (\<lambda>e. prefix e s) space_runes"

text \<open>A finished token is a field only when it is not empty.\<close>

definition flush :: "string \<Rightarrow> string list" where
  "flush tok = (if tok = [] then [] else [tok])"

function fields_from :: "string \<Rightarrow> string \<Rightarrow> string list" where
  "fields_from tok [] = flush tok"
| "fields_from tok (c # s) =
     (case leading_space (c # s) of
        Some e \<Rightarrow> flush tok @ fields_from [] (drop (length e) (c # s))
      | None \<Rightarrow> fields_from (tok @ [c]) s)"
  by pat_completeness auto
termination
proof (relation "measure (\<lambda>(tok, s). length s)")
  show "wf (measure (\<lambda>(tok, s). length s))" by simp
next
  fix tok :: string and c s e
  assume "leading_space (c # s) = Some e"
  then have "e \<in> set space_runes"
    unfolding leading_space_def by (auto simp: find_Some_iff)
  then have "0 < length e"
    unfolding space_runes_def by auto
  then show "(([], drop (length e) (c # s)), (tok, c # s)) \<in> measure (\<lambda>(tok, s). length s)"
    by simp
next
  fix tok :: string and c s
  show "((tok @ [c], s), (tok, c # s)) \<in> measure (\<lambda>(tok, s). length s)" by simp
qed

definition Fields :: "string \<Rightarrow> string list" where
  "Fields s = fields_from [] s"

subsection \<open>The process and its operating system\<close>

text \<open>
  What \<open>exec.Command\<close> builds: the name of the executable, its positional arguments
  and the \<open>Env\<close> field, nil (\<open>None\<close>) until it is assigned. With a nil \<open>Env\<close> the
  child runs in the environment of the current process.
\<close>

record Cmd =
  Name :: string
  Args :: "string list"
  Env :: "string list option"

text \<open>
  The state the program reads and changes. \<open>os_Args\<close> is the command line, the name
  of the program first, and \<open>environ\<close> the environment block of the process.
  \<open>home_dir\<close> is what \<open>os.UserHomeDir\<close> finds, \<open>None\<close> when the home directory cannot
  be determined. \<open>files\<close> holds the content of every regular file and \<open>dirs\<close> the
  directories below the root, each under its path. The four fault sets hold the paths on which the operating system refuses
  the operation (a permission, a full disk), so that each error branch of the program
  can be taken. \<open>child\<close> is the outcome of running a command to its end: \<open>None\<close> when
  it exits with status 0, the message of the error when it cannot be started or exits
  with another status. \<open>started\<close> records the commands that were run. The functions of
  the packages \<open>os\<close>, \<open>fmt\<close>, \<open>log\<close> and \<open>os/exec\<close> that the program calls are
  modelled on this state, each under its Go name.
\<close>

record world =
  os_Args :: "string list"
  environ :: "string list"
  home_dir :: "string option"
  files :: "string \<rightharpoonup> string"
  dirs :: "string set"
  stat_fault :: "string set"
  mkdir_fault :: "string set"
  write_fault :: "string set"
  read_fault :: "string set"
  child :: "Cmd \<Rightarrow> string option"
  started :: "Cmd list"
  stdout :: string
  stderr :: string

definition newline :: string where
  "newline = [CHR 0x0A]"

definition Print :: "string \<Rightarrow> world \<Rightarrow> world" where
  "Print s w = w\<lparr>stdout := stdout w @ s\<rparr>"

definition Println :: "string \<Rightarrow> world \<Rightarrow> world" where
  "Println s w = Print (s @ newline) w"

text \<open>
  \<open>log.Fatalf\<close> writes the message to the standard error stream and exits with
  status 1. The date and time that the logger puts before the message are left out.
\<close>

definition log_Fatalf :: "string \<Rightarrow> world \<Rightarrow> nat \<times> world" where
  "log_Fatalf s w = (1, w\<lparr>stderr := stderr w @ s @ newline\<rparr>)"

definition os_UserHomeDir :: "world \<Rightarrow> error + string" where
  "os_UserHomeDir w =
     (case home_dir w of
        None \<Rightarrow> Inl (SysError ''$HOME is not defined'')
      | Some h \<Rightarrow> Inr h)"

text \<open>
  The directories above a path, the outermost first: its prefixes that end before a
  separator. The root is not among them.
\<close>

definition parents :: "string \<Rightarrow> string list" where
  "parents p =
     map (\<lambda>i. take i p)
       (filter (\<lambda>i. p ! i = CHR ''/'' \<and> p ! (i - 1) \<noteq> CHR ''/'') [1..<length p])"

text \<open>A path cannot be walked when a regular file is in the place of one of its directories.\<close>

definition blocked :: "world \<Rightarrow> string \<Rightarrow> bool" where
  "blocked w p = list_ex (\<lambda>a. files w a \<noteq> None) (parents p)"

datatype stat_result = StatOk | StatNotExist | StatError

text \<open>
  \<open>os.Stat\<close> answers with an error that \<open>os.IsNotExist\<close> accepts only when the path
  can be walked and its last element is missing; a path that cannot be walked gives
  another error.
\<close>

definition os_Stat :: "world \<Rightarrow> string \<Rightarrow> stat_result" where
  "os_Stat w p =
     (if p \<in> stat_fault w then StatError
      else if p \<in> dom (files w) \<or> p \<in> dirs w then StatOk
      else if blocked w p then StatError
      else StatNotExist)"

definition os_IsNotExist :: "stat_result \<Rightarrow> bool" where
  "os_IsNotExist r = (r = StatNotExist)"

text \<open>
  \<open>os.MkdirAll\<close> fails when the directory cannot be made or a regular file has its
  name or the name of one of its parents. Otherwise the directory exists afterwards,
  and so do all its parents.
\<close>

definition os_MkdirAll :: "string \<Rightarrow> world \<Rightarrow> error option \<times> world" where
  "os_MkdirAll d w =
     (if d \<in> mkdir_fault w \<or> d \<in> dom (files w) \<or> blocked w d
      then (Some (SysError (''mkdir '' @ d @ '': cannot create directory'')), w)
      else (None, w\<lparr>dirs := insert d (dirs w \<union> set (parents d))\<rparr>))"

text \<open>
  \<open>os.WriteFile\<close> fails when the file cannot be written, a directory has its name or
  its path cannot be walked.
\<close>

definition os_WriteFile :: "string \<Rightarrow> string \<Rightarrow> world \<Rightarrow> error option \<times> world" where
  "os_WriteFile p data w =
     (if p \<in> write_fault w \<or> p \<in> dirs w \<or> blocked w p
      then (Some (SysError (''open '' @ p @ '': cannot write file'')), w)
      else (None, w\<lparr>files := (files w)(p \<mapsto> data)\<rparr>))"

text \<open>\<open>os.ReadFile\<close> gives the content of a regular file that may be read.\<close>

definition os_ReadFile :: "world \<Rightarrow> string \<Rightarrow> error + string" where
  "os_ReadFile w p =
     (if p \<in> read_fault w then Inl (SysError (''open '' @ p @ '': cannot read file''))
      else case files w p of
        None \<Rightarrow>
          Inl (SysError (''open '' @ p @
            (if blocked w p then '': not a directory'' else '': no such file'')))
      | Some data \<Rightarrow> Inr data)"

subsection \<open>\<open>path/filepath\<close> on Unix\<close>

fun split_on :: "char \<Rightarrow> string \<Rightarrow> string list" where
  "split_on d [] = [[]]"
| "split_on d (c # s) =
     (if c = d then [] # split_on d s
      else case split_on d s of
        [] \<Rightarrow> [[c]]
      | x # xs \<Rightarrow> (c # x) # xs)"

fun join_with :: "string \<Rightarrow> string list \<Rightarrow> string" where
  "join_with sep [] = []"
| "join_with sep [x] = x"
| "join_with sep (x # y # ys) = x @ sep @ join_with sep (y # ys)"

text \<open>
  One step of \<open>filepath.Clean\<close>, on the elements kept so far, last one first: an
  empty element and \<open>.\<close> are dropped; \<open>..\<close> removes the element before it, is dropped
  at the root, and is kept at the start of a path that is not rooted.
\<close>

definition clean_step :: "bool \<Rightarrow> string list \<Rightarrow> string \<Rightarrow> string list" where
  "clean_step rooted stack c =
     (if c = [] \<or> c = ''.'' then stack
      else if c = ''..'' then
        (case stack of
           [] \<Rightarrow> if rooted then [] else [c]
         | t # ts \<Rightarrow> if t = ''..'' then c # stack else ts)
      else c # stack)"

definition filepath_Clean :: "string \<Rightarrow> string" where
  "filepath_Clean p =
     (let rooted = (p \<noteq> [] \<and> hd p = CHR ''/'');
          out = join_with ''/'' (rev (foldl (clean_step rooted) [] (split_on CHR ''/'' p)))
      in if rooted then CHR ''/'' # out
         else if out = [] then ''.'' else out)"

text \<open>\<open>filepath.Join\<close> of two elements: empty elements are ignored.\<close>

definition filepath_Join :: "string \<Rightarrow> string \<Rightarrow> string" where
  "filepath_Join a b =
     (if a \<noteq> [] then filepath_Clean (a @ ''/'' @ b)
      else if b \<noteq> [] then filepath_Clean b
      else [])"

text \<open>\<open>filepath.Dir\<close>: all but the last element, cleaned.\<close>

definition filepath_Dir :: "string \<Rightarrow> string" where
  "filepath_Dir p = filepath_Clean (rev (dropWhile (\<lambda>c. c \<noteq> CHR ''/'') (rev p)))"

subsection \<open>Config Store (\<open>main.go\<close>, lines 25 to 117)\<close>

definition GetConfigDir :: "world \<Rightarrow> error + string" where
  "GetConfigDir w =
     (case os_UserHomeDir w of
        Inl err \<Rightarrow> Inl (HomeDirUnavailable err)
      | Inr homeDir \<Rightarrow> Inr (filepath_Join homeDir ''.cs''))"

definition GetConfigPath :: "world \<Rightarrow> error + string" where
  "GetConfigPath w =
     (case GetConfigDir w of
        Inl err \<Rightarrow> Inl err
      | Inr configDir \<Rightarrow> Inr (filepath_Join configDir ''config.yaml''))"

text \<open>
  The text of the default file, line by line; in the source it is one raw string in
  which every line ends with a newline.
\<close>

definition default_lines :: "string list" where
  \<open>default_lines =
    [''# CS Switcher Configuration File'',
     ''# Define your environment configurations here'',
     '''',
     ''environments:'',
     ''  # GLM environment configuration for Claude Code'',
     ''  glm:'',
     ''    target: "claude"  # Claude Code command'',
     ''    environment:'',
     ''      CLAUDE_CODE_DISABLE_NONESSENTIAL_TRAFFIC: "1"'',
     ''      ANTHROPIC_BASE_URL: "https://open.bigmodel.cn/api/anthropic"'',
     ''      ANTHROPIC_AUTH_TOKEN: "your-glm-api-key"'',
     ''      ANTHROPIC_MODEL: "glm-4.6"'',
     ''      ANTHROPIC_SMALL_FAST_MODEL: "glm-4.5-air"'',
     ''      ANTHROPIC_DEFAULT_SONNET_MODEL: "glm-4.6"'',
     ''      ANTHROPIC_DEFAULT_OPUS_MODEL: "glm-4.6"'',
     ''      ANTHROPIC_DEFAULT_HAIKU_MODEL: "glm-4.5-air"'',
     ''      API_TIMEOUT_MS: "3000000"'',
     '''',
     ''# Add more environments as needed'',
     ''# Example:'',
     ''#   myenv:'',
     ''#     target: "node server.js"'',
     ''#     environment:'',
     ''#       PORT: "3000"'',
     ''#       NODE_ENV: "production"'']\<close>

definition defaultConfig :: string where
  "defaultConfig = concat (map (\<lambda>l. l @ newline) default_lines)"

definition createDefaultConfig :: "string \<Rightarrow> world \<Rightarrow> error option \<times> world" where
  "createDefaultConfig configPath w =
     (let configDir = filepath_Dir configPath in
      case os_MkdirAll configDir w of
        (Some err, w1) \<Rightarrow> (Some (ConfigDirError err), w1)
      | (None, w1) \<Rightarrow> os_WriteFile configPath defaultConfig w1)"

text \<open>
  \<open>yaml.Unmarshal\<close> belongs to a library, not to this program: \<open>LoadConfig\<close> takes
  it as a parameter, a function from the bytes of the file to an error or the decoded
  \<open>Config\<close>, whose \<open>Environments\<close> is nil when the document has no such section.
\<close>

type_synonym unmarshal = "string \<Rightarrow> error + Config"

text \<open>Lines 63 to 78: read the file, parse it, replace a nil map by an empty one.\<close>

definition read_config :: "unmarshal \<Rightarrow> string \<Rightarrow> world \<Rightarrow> error + Config" where
  "read_config yaml_Unmarshal configPath w =
     (case os_ReadFile w configPath of
        Inl err \<Rightarrow> Inl (ConfigReadError err)
      | Inr data \<Rightarrow>
          (case yaml_Unmarshal data of
             Inl err \<Rightarrow> Inl (ConfigParseError err)
           | Inr config \<Rightarrow>
               Inr (if Environments config = None
                    then config\<lparr>Environments := Some []\<rparr>
                    else config)))"

definition LoadConfig :: "unmarshal \<Rightarrow> world \<Rightarrow> (error + Config) \<times> world" where
  "LoadConfig yaml_Unmarshal w =
     (case GetConfigPath w of
        Inl err \<Rightarrow> (Inl err, w)
      | Inr configPath \<Rightarrow>
          if os_IsNotExist (os_Stat w configPath) then
            (case createDefaultConfig configPath w of
               (Some err, w1) \<Rightarrow> (Inl (ConfigWriteError err), w1)
             | (None, w1) \<Rightarrow>
                 (let w2 = Print (''Created default configuration file: '' @ configPath
                                  @ newline) w1;
                      w3 = Println ''Please edit the file to add your environment configurations.'' w2
                  in (read_config yaml_Unmarshal configPath w3, w3)))
          else (read_config yaml_Unmarshal configPath w, w))"

subsection \<open>Launcher (\<open>main.go\<close>, lines 119 to 157)\<close>

definition exec_Command :: "string \<Rightarrow> string list \<Rightarrow> Cmd" where
  "exec_Command name arg = \<lparr>Name = name, Args = arg, Env = None\<rparr>"

text \<open>
  \<open>cmd.Run\<close> starts the child and waits for it. The three standard streams of the
  child are those of the process and are not modelled.
\<close>

definition cmd_Run :: "Cmd \<Rightarrow> world \<Rightarrow> error option \<times> world" where
  "cmd_Run cmd w = (map_option SysError (child w cmd), w\<lparr>started := started w @ [cmd]\<rparr>)"

text \<open>Lines 138 to 148: the \<open>Env\<close> field, set only when there are variables.\<close>

definition overlay :: "string list \<Rightarrow> (string \<times> string) list \<Rightarrow> string list" where
  "overlay env vars = foldl (\<lambda>env (key, value). env @ [key @ ''='' @ value]) env vars"

definition Run :: "Environment \<Rightarrow> world \<Rightarrow> error option \<times> world" where
  "Run envConfig w =
     (if Target envConfig = [] then (Some EmptyTarget, w)
      else case Fields (Target envConfig) of
        [] \<Rightarrow> (Some InvalidTarget, w)
      | command # args \<Rightarrow>
          (let cmd = exec_Command command args;
               cmd = (if length (Environment envConfig) > 0
                      then cmd\<lparr>Env := Some (overlay (environ w) (Environment envConfig))\<rparr>
                      else cmd)
           in cmd_Run cmd w))"

subsection \<open>Environment Resolver and CLI entry (\<open>main.go\<close>, lines 159 to 200)\<close>

text \<open>The entries of \<open>cfg.Environments\<close>; a nil map has none.\<close>

definition entries :: "Config \<Rightarrow> (string \<times> Environment) list" where
  "entries cfg = (case Environments cfg of None \<Rightarrow> [] | Some m \<Rightarrow> m)"

text \<open>Line 176, \<open>cfg.Environments[environment]\<close> with its \<open>exists\<close> flag.\<close>

definition lookup :: "Config \<Rightarrow> string \<Rightarrow> Environment option" where
  "lookup cfg name = map_of (entries cfg) name"

text \<open>Line 197: the names that \<open>range cfg.Environments\<close> goes through.\<close>

definition listNames :: "Config \<Rightarrow> string list" where
  "listNames cfg = map fst (entries cfg)"

definition printAvailableEnvironments :: "unmarshal \<Rightarrow> world \<Rightarrow> world" where
  "printAvailableEnvironments yaml_Unmarshal w =
     (case LoadConfig yaml_Unmarshal w of
        (Inl err, w1) \<Rightarrow>
          Print (''  (Unable to load config: '' @ Error err @ '')'' @ newline) w1
      | (Inr cfg, w1) \<Rightarrow>
          foldl (\<lambda>w name. Print (''  '' @ name @ newline) w) w1 (listNames cfg))"

text \<open>
  \<open>main\<close> returns the exit status of the process with the final state: 1 after
  \<open>os.Exit(1)\<close> and after \<open>log.Fatalf\<close>, 0 when \<open>main\<close> returns.
\<close>

definition main :: "unmarshal \<Rightarrow> world \<Rightarrow> nat \<times> world" where
  "main yaml_Unmarshal w =
     (if length (os_Args w) < 2 then
        (let w1 = Println ''Usage: cs <environment>'' w;
             w2 = Println ''Available environments:'' w1;
             w3 = printAvailableEnvironments yaml_Unmarshal w2
         in (1, w3))
      else
        (let environment = os_Args w ! 1 in
         case LoadConfig yaml_Unmarshal w of
           (Inl err, w1) \<Rightarrow> log_Fatalf (''Failed to load configuration: '' @ Error err) w1
         | (Inr cfg, w1) \<Rightarrow>
             (case lookup cfg environment of
                None \<Rightarrow>
                  (let w2 = Print (''Environment '' @ [CHR 0x27] @ environment @ [CHR 0x27]
                                   @ '' not found.'' @ newline) w1;
                       w3 = Println ''Available environments:'' w2;
                       w4 = printAvailableEnvironments yaml_Unmarshal w3
                   in (1, w4))
              | Some envConfig \<Rightarrow>
                  (case Run envConfig w1 of
                     (Some err, w2) \<Rightarrow> log_Fatalf (''Failed to run command: '' @ Error err) w2
                   | (None, w2) \<Rightarrow> (0, w2)))))"

subsection \<open>A reader for block mappings\<close>

text \<open>
  Modelled from the spec: the decoding of the configuration file. \<open>yaml.Unmarshal\<close>
  belongs to the library \<open>gopkg.in/yaml.v3\<close>, which is not among the sources; the
  specification gives the shape of the document, a top-level key \<open>environments\<close> that
  maps each name to a record with the keys \<open>target\<close> (a string) and \<open>environment\<close>
  (a mapping of strings to strings); a null section leaves the map nil and content of
  another shape is a parse error. \<open>yaml_Unmarshal\<close> reads the documents that are
  written as the default file is: block mappings, one \<open>key: value\<close> or \<open>key:\<close> on a
  line, nested by indentation, with plain, single-quoted or double-quoted scalars
  without escapes, \<open>#\<close> comments and either line break. Other YAML (sequences, flow
  collections but the empty ones, block scalars, escapes, anchors, tags, several
  documents) is outside this model and is reported as an error. The reader is needed
  only where a statement depends on the content of a file; the statements about
  \<open>LoadConfig\<close> that do not, hold for every function in the place of
  \<open>yaml.Unmarshal\<close>.
\<close>

text \<open>A space or a tab.\<close>

definition is_blank :: "char \<Rightarrow> bool" where
  "is_blank c = (c = CHR '' '' \<or> c = CHR 0x09)"

definition trim :: "string \<Rightarrow> string" where
  "trim s = dropWhile is_blank (rev (dropWhile is_blank (rev s)))"

text \<open>
  A scalar is absent, plain or quoted; only a plain one can be a null or the empty flow
  mapping. A quoted scalar ends at the next quote of its kind.
\<close>

datatype scalar = Empty | Plain string | Quoted string

definition is_quote :: "char \<Rightarrow> bool" where
  "is_quote c = (c = CHR 0x22 \<or> c = CHR 0x27)"

fun until_quote :: "char \<Rightarrow> string \<Rightarrow> string \<Rightarrow> (string \<times> string) option" where
  "until_quote q acc [] = None"
| "until_quote q acc (c # s) = (if c = q then Some (acc, s) else until_quote q (acc @ [c]) s)"

text \<open>
  Outside quotes a comment starts at a \<open>#\<close> that is at the start of the text or after
  a blank.
\<close>

fun cut_comment :: "bool \<Rightarrow> string \<Rightarrow> string" where
  "cut_comment after_blank [] = []"
| "cut_comment after_blank (c # s) =
     (if c = CHR ''#'' \<and> after_blank then [] else c # cut_comment (is_blank c) s)"

definition plain_text :: "string \<Rightarrow> string" where
  "plain_text s = trim (cut_comment True s)"

text \<open>
  The value of a line, \<open>None\<close> when it is not a scalar of this model: a quoted scalar
  with a backslash or with text after it, a flow collection other than \<open>{}\<close> and
  \<open>[]\<close>, a block scalar, an anchor, an alias or a tag.
\<close>

definition scan_value :: "string \<Rightarrow> scalar option" where
  "scan_value s =
     (case dropWhile is_blank s of
        [] \<Rightarrow> Some Empty
      | c # r \<Rightarrow>
          if is_quote c then
            (case until_quote c [] r of
               None \<Rightarrow> None
             | Some (t, rest) \<Rightarrow>
                 if CHR 0x5C \<notin> set t \<and> plain_text rest = [] then Some (Quoted t) else None)
          else if plain_text (c # r) = [] then Some Empty
          else if plain_text (c # r) \<in> {''{}'', ''[]''} then Some (Plain (plain_text (c # r)))
          else if c \<in> set ''[]{}&*!|>%@`,'' then None
          else Some (Plain (plain_text (c # r))))"

text \<open>The key of a line ends at the first colon that a blank or the end of the line follows.\<close>

fun split_key :: "string \<Rightarrow> string \<Rightarrow> (string \<times> string) option" where
  "split_key k [] = None"
| "split_key k (c # s) =
     (if c = CHR '':'' \<and> (s = [] \<or> is_blank (hd s)) then Some (k, s)
      else split_key (k @ [c]) s)"

text \<open>
  The key of a line and the text after its colon, \<open>None\<close> when the line is not an
  entry of a block mapping with a plain or quoted key.
\<close>

definition scan_key :: "string \<Rightarrow> (string \<times> string) option" where
  "scan_key body =
     (case body of
        [] \<Rightarrow> None
      | c # r \<Rightarrow>
          if is_quote c then
            (case until_quote c [] r of
               None \<Rightarrow> None
             | Some (k, rest) \<Rightarrow>
                 (case dropWhile is_blank rest of
                    [] \<Rightarrow> None
                  | d # v \<Rightarrow>
                      if d = CHR '':'' \<and> CHR 0x5C \<notin> set k \<and> (v = [] \<or> is_blank (hd v))
                      then Some (k, v) else None))
          else if c = CHR 0x09 \<or> c \<in> set ''[]{}&*!|>%@`,''
                  \<or> (c \<in> set ''-?:'' \<and> (r = [] \<or> is_blank (hd r)))
          then None
          else
            (case split_key [] body of
               None \<Rightarrow> None
             | Some (k, v) \<Rightarrow> if cut_comment False k = k then Some (trim k, v) else None))"

text \<open>
  A line is blank (or a comment, or the document marker), or an entry with its
  indentation, its key and its value, or it is not of this form. A carriage return
  before the newline belongs to the line break.
\<close>

datatype yaml_line = Blank | Entry nat string scalar | Malformed

definition scan_line :: "string \<Rightarrow> yaml_line" where
  "scan_line l =
     (let t = (if l \<noteq> [] \<and> last l = CHR 0x0D then butlast l else l);
          body = dropWhile (\<lambda>c. c = CHR '' '') t
      in if plain_text body = [] \<or> t = ''---'' then Blank
         else case scan_key body of
           None \<Rightarrow> Malformed
         | Some (k, v) \<Rightarrow>
             (case scan_value v of
                None \<Rightarrow> Malformed
              | Some x \<Rightarrow> Entry (length (takeWhile (\<lambda>c. c = CHR '' '') t)) k x))"

text \<open>
  The entries of the document, each with the keys of the mappings around it. The stack
  holds the entries that are still open, innermost first, each with its indentation
  and whether it has no value of its own. A line closes the entries that are indented
  as much as it is or more; it must be aligned with one of them, or be deeper than an
  entry without a value, or be the first entry.
\<close>

fun yaml_paths ::
  "(nat \<times> string \<times> bool) list \<Rightarrow> yaml_line list \<Rightarrow> (string list \<times> scalar) list option" where
  "yaml_paths stack [] = Some []"
| "yaml_paths stack (Blank # ls) = yaml_paths stack ls"
| "yaml_paths stack (Malformed # ls) = None"
| "yaml_paths stack (Entry i k v # ls) =
     (let closed = takeWhile (\<lambda>(j, _). i \<le> j) stack;
          stack' = dropWhile (\<lambda>(j, _). i \<le> j) stack;
          path = rev (map (\<lambda>(_, key, _). key) stack') @ [k]
      in if (closed = [] \<and> stack \<noteq> [] \<and> \<not> snd (snd (hd stack)))
            \<or> (closed \<noteq> [] \<and> fst (last closed) \<noteq> i)
         then None
         else map_option ((#) (path, v)) (yaml_paths ((i, k, v = Empty) # stack') ls))"

text \<open>The entries directly inside the mapping at a path.\<close>

definition children :: "string list \<Rightarrow> (string list \<times> scalar) list \<Rightarrow> (string \<times> scalar) list" where
  "children path evs =
     map (\<lambda>(p, v). (last p, v)) (filter (\<lambda>(p, v). p \<noteq> [] \<and> butlast p = path) evs)"

definition is_null :: "scalar \<Rightarrow> bool" where
  "is_null v = (v = Empty \<or> v \<in> Plain ` {''null'', ''Null'', ''NULL'', ''~''})"

text \<open>
  The node at a path read as a mapping: \<open>None\<close> when it is a scalar that is not null
  or has a key twice (an error), \<open>Some None\<close> when it is null, and its entries
  otherwise.
\<close>

definition as_mapping ::
  "string list \<Rightarrow> scalar \<Rightarrow> (string list \<times> scalar) list \<Rightarrow> (string \<times> scalar) list option option" where
  "as_mapping path v evs =
     (if children path evs \<noteq> [] then
        (if distinct (map fst (children path evs)) then Some (Some (children path evs))
         else None)
      else if v = Plain ''{}'' then Some (Some [])
      else if is_null v then Some None
      else None)"

text \<open>
  The node at a path read as a string: a mapping or a flow collection is an error, a
  null leaves the empty string, any other scalar gives its text.
\<close>

definition as_string ::
  "string list \<Rightarrow> scalar \<Rightarrow> (string list \<times> scalar) list \<Rightarrow> string option" where
  "as_string path v evs =
     (if children path evs \<noteq> [] \<or> v \<in> Plain ` {''{}'', ''[]''} then None
      else case v of
        Empty \<Rightarrow> Some []
      | Plain s \<Rightarrow> Some (if is_null v then [] else s)
      | Quoted s \<Rightarrow> Some s)"

definition decode_variables ::
  "string list \<Rightarrow> scalar \<Rightarrow> (string list \<times> scalar) list \<Rightarrow> (string \<times> string) list option" where
  "decode_variables path v evs =
     (case as_mapping path v evs of
        None \<Rightarrow> None
      | Some None \<Rightarrow> Some []
      | Some (Some kvs) \<Rightarrow>
          those (map (\<lambda>(k, x). map_option (Pair k) (as_string (path @ [k]) x evs)) kvs))"

text \<open>Keys other than \<open>target\<close> and \<open>environment\<close> are ignored, with all they hold.\<close>

definition decode_environment ::
  "string list \<Rightarrow> scalar \<Rightarrow> (string list \<times> scalar) list \<Rightarrow> Environment option" where
  "decode_environment path v evs =
     (case as_mapping path v evs of
        None \<Rightarrow> None
      | Some None \<Rightarrow> Some \<lparr>Target = [], Environment = []\<rparr>
      | Some (Some kvs) \<Rightarrow>
          (case (case map_of kvs ''target'' of
                   None \<Rightarrow> Some []
                 | Some x \<Rightarrow> as_string (path @ [''target'']) x evs) of
             None \<Rightarrow> None
           | Some t \<Rightarrow>
               (case (case map_of kvs ''environment'' of
                        None \<Rightarrow> Some []
                      | Some x \<Rightarrow> decode_variables (path @ [''environment'']) x evs) of
                  None \<Rightarrow> None
                | Some vars \<Rightarrow> Some \<lparr>Target = t, Environment = vars\<rparr>)))"

text \<open>
  Decoding into \<open>Config\<close>: without an \<open>environments\<close> key, or with one that is null,
  the map stays nil; a scalar where a mapping is expected, a mapping where a string is
  expected and a key that occurs twice in a mapping that is decoded are errors; keys
  that \<open>Config\<close> does not have are ignored.
\<close>

definition yaml_Unmarshal :: "string \<Rightarrow> error + Config" where
  "yaml_Unmarshal data =
     (case yaml_paths [] (map scan_line (split_on (CHR 0x0A) data)) of
        None \<Rightarrow> Inl (SysError ''yaml: did not find expected key'')
      | Some evs \<Rightarrow>
          if \<not> distinct (map fst (children [] evs))
          then Inl (SysError ''yaml: mapping key already defined'')
          else case map_of (children [] evs) ''environments'' of
            None \<Rightarrow> Inr \<lparr>Environments = None\<rparr>
          | Some v \<Rightarrow>
              (case as_mapping [''environments''] v evs of
                 None \<Rightarrow> Inl (SysError ''yaml: cannot unmarshal into map[string]Environment'')
               | Some None \<Rightarrow> Inr \<lparr>Environments = None\<rparr>
               | Some (Some kvs) \<Rightarrow>
                   (case those (map (\<lambda>(n, x).
                            map_option (Pair n) (decode_environment [''environments'', n] x evs))
                          kvs) of
                      None \<Rightarrow> Inl (SysError ''yaml: cannot unmarshal into Environment'')
                    | Some m \<Rightarrow> Inr \<lparr>Environments = Some m\<rparr>)))"

text \<open>The configuration file of the scenario in the specification.\<close>

definition sample_lines :: "string list" where
  \<open>sample_lines =
    [''environments:'',
     ''  testenv:'',
     ''    target: "echo hello"'',
     ''    environment:'',
     ''      TEST_VAR: test_value'',
     ''  another:'',
     ''    target: "pwd"'',
     ''    environment:'',
     ''      PATH: /custom/path'']\<close>

definition sample_config :: string where
  "sample_config = concat (map (\<lambda>l. l @ newline) sample_lines)"

subsection \<open>Concrete states\<close>

text \<open>
  A first run: the home directory is known, no file or directory below the root exists
  yet, nothing is refused and
  every command that is started exits with status 0.
\<close>

definition fresh_world :: world where
  "fresh_world =
     \<lparr>os_Args = [''cs''], environ = [''HOME=/home/u'', ''PATH=/bin''],
      home_dir = Some ''/home/u'', files = Map.empty, dirs = {},
      stat_fault = {}, mkdir_fault = {}, write_fault = {}, read_fault = {},
      child = (\<lambda>cmd. None), started = [], stdout = [], stderr = []\<rparr>"

text \<open>A later run: the configuration file of the scenario exists.\<close>

definition configured_world :: world where
  "configured_world =
     fresh_world\<lparr>os_Args := [''cs'', ''testenv''],
                 files := [''/home/u/.cs/config.yaml'' \<mapsto> sample_config],
                 dirs := {''/home'', ''/home/u'', ''/home/u/.cs''}\<rparr>"

subsection \<open>Specification vocabulary\<close>

text \<open>
  A string is white space only when it is a sequence of white-space code points; the
  empty string is one.
\<close>

inductive whitespace_only :: "string \<Rightarrow> bool" where
  blank_empty: "whitespace_only []"
| blank_rune: "e \<in> set space_runes \<Longrightarrow> whitespace_only s \<Longrightarrow> whitespace_only (e @ s)"

text \<open>
  A token is not empty and holds no white-space code point. \<open>splits_into s ts\<close>
  says that \<open>s\<close> is the tokens \<open>ts\<close>, in this order, with a run of white space between
  two of them and possibly before the first and after the last: this is "splitting on
  runs of white space" as the specification words it.
\<close>

definition is_token :: "string \<Rightarrow> bool" where
  "is_token t = (t \<noteq> [] \<and> (\<forall>e\<in>set space_runes. \<not> sublist e t))"

inductive splits_into :: "string \<Rightarrow> string list \<Rightarrow> bool" where
  split_end: "splits_into [] []"
| split_space: "e \<in> set space_runes \<Longrightarrow> splits_into s ts \<Longrightarrow> splits_into (e @ s) ts"
| split_last: "is_token t \<Longrightarrow> splits_into t [t]"
| split_token: "is_token t \<Longrightarrow> e \<in> set space_runes \<Longrightarrow> splits_into s ts \<Longrightarrow>
    splits_into (t @ e @ s) (t # ts)"

text \<open>The continuation bytes of UTF-8.\<close>

definition is_cont :: "char \<Rightarrow> bool" where
  "is_cont c = (0x80 \<le> (of_char c :: nat) \<and> (of_char c :: nat) \<le> 0xBF)"

text \<open>No white-space code point starts inside \<open>u\<close> when \<open>r\<close> follows it.\<close>

definition clear_in :: "string \<Rightarrow> string \<Rightarrow> bool" where
  "clear_in u r = (\<forall>i<length u. leading_space (drop i (u @ r)) = None)"

text \<open>
  An environment block is a list of entries \<open>key=value\<close>, the key ending at the first
  \<open>=\<close>. Where a key occurs more than once, \<open>os/exec\<close> uses the last entry; this is what
  \<open>env_value\<close> reads. A command whose \<open>Env\<close> is nil runs in the environment of the
  process.
\<close>

definition entry_of :: "string \<Rightarrow> (string \<times> string) option" where
  "entry_of kv =
     (if CHR ''='' \<in> set kv
      then Some (takeWhile (\<lambda>c. c \<noteq> CHR ''='') kv, tl (dropWhile (\<lambda>c. c \<noteq> CHR ''='') kv))
      else None)"

fun env_value :: "string list \<Rightarrow> string \<Rightarrow> string option" where
  "env_value [] name = None"
| "env_value (kv # env) name =
     (case env_value env name of
        Some v \<Rightarrow> Some v
      | None \<Rightarrow>
          (case entry_of kv of
             Some (k, v) \<Rightarrow> if k = name then Some v else None
           | None \<Rightarrow> None))"

definition child_environ :: "world \<Rightarrow> Cmd \<Rightarrow> string list" where
  "child_environ w cmd = (case Env cmd of None \<Rightarrow> environ w | Some env \<Rightarrow> env)"

text \<open>The entries that the loop of lines 143 to 145 appends, one for each variable.\<close>

definition formatted :: "(string \<times> string) list \<Rightarrow> string list" where
  "formatted vars = map (\<lambda>(key, value). key @ ''='' @ value) vars"

text \<open>The two lines that \<open>LoadConfig\<close> prints after it has created the default file.\<close>

definition notices :: "string \<Rightarrow> string" where
  "notices p = ''Created default configuration file: '' @ p @ newline @
     ''Please edit the file to add your environment configurations.'' @ newline"

text \<open>
  What \<open>printAvailableEnvironments\<close> prints: one line for each name, or the note in
  parentheses when the configuration cannot be loaded.
\<close>

definition listing :: "string list \<Rightarrow> string" where
  "listing names = concat (map (\<lambda>name. ''  '' @ name @ newline) names)"

definition unable_note :: "error \<Rightarrow> string" where
  "unable_note err = ''  (Unable to load config: '' @ Error err @ '')'' @ newline"

text \<open>The lines that \<open>main\<close> prints before the listing, in its two listing branches.\<close>

definition usage_text :: string where
  "usage_text = ''Usage: cs <environment>'' @ newline @ ''Available environments:'' @ newline"

definition not_found_text :: "string \<Rightarrow> string" where
  "not_found_text name = ''Environment '' @ [CHR 0x27] @ name @ [CHR 0x27] @ '' not found.''
     @ newline @ ''Available environments:'' @ newline"

text \<open>The environment \<open>glm\<close> as the default file of lines 89 to 114 writes it.\<close>

definition default_glm :: Environment where
  "default_glm =
     \<lparr>Target = ''claude'',
      Environment =
        [(''CLAUDE_CODE_DISABLE_NONESSENTIAL_TRAFFIC'', ''1''),
         (''ANTHROPIC_BASE_URL'', ''https://open.bigmodel.cn/api/anthropic''),
         (''ANTHROPIC_AUTH_TOKEN'', ''your-glm-api-key''),
         (''ANTHROPIC_MODEL'', ''glm-4.6''),
         (''ANTHROPIC_SMALL_FAST_MODEL'', ''glm-4.5-air''),
         (''ANTHROPIC_DEFAULT_SONNET_MODEL'', ''glm-4.6''),
         (''ANTHROPIC_DEFAULT_OPUS_MODEL'', ''glm-4.6''),
         (''ANTHROPIC_DEFAULT_HAIKU_MODEL'', ''glm-4.5-air''),
         (''API_TIMEOUT_MS'', ''3000000'')]\<rparr>"

text \<open>
  What \<open>LoadConfig\<close> prints: the two lines when it has created the default file,
  nothing otherwise.
\<close>

definition load_notice :: "world \<Rightarrow> string" where
  "load_notice w =
     (case GetConfigPath w of
        Inl err \<Rightarrow> []
      | Inr p \<Rightarrow>
          if os_Stat w p = StatNotExist \<and> fst (createDefaultConfig p w) = None
          then notices p else [])"

section \<open>Properties\<close>

subsection \<open>White space and \<open>strings.Fields\<close>\<close>

lemma space_runes_prefix_free_all:
  "\<forall>e\<in>set space_runes. \<forall>e'\<in>set space_runes. prefix e e' \<longrightarrow> e = e'"
  by code_simp

lemma space_runes_prefix_free:
  "e \<in> set space_runes \<Longrightarrow> e' \<in> set space_runes \<Longrightarrow> prefix e e' \<Longrightarrow> e = e'"
  using space_runes_prefix_free_all by blast

lemma space_runes_nonempty_all: "\<forall>e\<in>set space_runes. e \<noteq> []"
  by code_simp

lemma space_runes_nonempty: "e \<in> set space_runes \<Longrightarrow> e \<noteq> []"
  using space_runes_nonempty_all by blast

lemma leading_space_Some:
  "leading_space s = Some e \<Longrightarrow> e \<in> set space_runes \<and> prefix e s"
  unfolding leading_space_def by (auto simp: find_Some_iff)

lemma leading_space_None:
  "leading_space s = None \<Longrightarrow> e \<in> set space_runes \<Longrightarrow> \<not> prefix e s"
  unfolding leading_space_def by (auto simp: find_None_iff)

lemma leading_space_unique:
  assumes "leading_space s = Some e" and "e' \<in> set space_runes" and "prefix e' s"
  shows "e' = e"
proof -
  from assms(1) have e: "e \<in> set space_runes" "prefix e s"
    by (simp_all add: leading_space_Some)
  from e(2) assms(3) have "prefix e e' \<or> prefix e' e"
    by (rule prefix_same_cases [THEN disjE]) auto
  with e(1) assms(2) show ?thesis
    by (auto dest: space_runes_prefix_free)
qed

lemma whitespace_only_Cons:
  "whitespace_only (c # s) \<longleftrightarrow>
     (\<exists>e. leading_space (c # s) = Some e \<and> whitespace_only (drop (length e) (c # s)))"
proof
  assume "whitespace_only (c # s)"
  then obtain e r where er: "e \<in> set space_runes" "whitespace_only r" "c # s = e @ r"
    by (cases rule: whitespace_only.cases) (auto dest: space_runes_nonempty)
  then have p: "prefix e (c # s)" by simp
  have "leading_space (c # s) \<noteq> None"
    using leading_space_None [OF _ er(1)] p by blast
  then obtain e' where e': "leading_space (c # s) = Some e'" by blast
  from leading_space_unique [OF e' er(1) p] have "e = e'" .
  with er e' show "\<exists>e. leading_space (c # s) = Some e \<and> whitespace_only (drop (length e) (c # s))"
    by auto
next
  assume "\<exists>e. leading_space (c # s) = Some e \<and> whitespace_only (drop (length e) (c # s))"
  then obtain e where e: "leading_space (c # s) = Some e"
    and w: "whitespace_only (drop (length e) (c # s))" by blast
  from e have m: "e \<in> set space_runes" and p: "prefix e (c # s)"
    by (simp_all add: leading_space_Some)
  from p have "c # s = e @ drop (length e) (c # s)"
    by (metis append_eq_conv_conj prefix_def)
  with blank_rune [OF m w] show "whitespace_only (c # s)" by simp
qed

lemma fields_from_Nil_iff:
  "fields_from tok s = [] \<longleftrightarrow> tok = [] \<and> whitespace_only s"
proof (induction tok s rule: fields_from.induct)
  case (1 tok)
  show ?case by (simp add: flush_def blank_empty)
next
  case (2 tok c s)
  show ?case
  proof (cases "leading_space (c # s)")
    case None
    then show ?thesis using 2 by (simp add: whitespace_only_Cons)
  next
    case (Some e)
    then show ?thesis using 2 by (simp add: whitespace_only_Cons flush_def)
  qed
qed

lemma Fields_Nil_iff: "Fields s = [] \<longleftrightarrow> whitespace_only s"
  by (simp add: Fields_def fields_from_Nil_iff)

lemma space_runes_bytes_all:
  "\<forall>e\<in>set space_runes. \<not> is_cont (hd e) \<and> (\<forall>c\<in>set (tl e). is_cont c)"
  by code_simp

lemma fields_from_nonempty:
  "s \<noteq> [] \<Longrightarrow> fields_from tok s =
     (case leading_space s of
        Some e \<Rightarrow> flush tok @ fields_from [] (drop (length e) s)
      | None \<Rightarrow> fields_from (tok @ [hd s]) (tl s))"
  by (cases s) (auto split: option.splits)

lemma leading_space_None_iff:
  "leading_space s = None \<longleftrightarrow> (\<forall>e\<in>set space_runes. \<not> prefix e s)"
  unfolding leading_space_def by (auto simp: find_None_iff)

lemma leading_space_at_rune:
  assumes "e \<in> set space_runes" shows "leading_space (e @ s) = Some e"
proof -
  have "prefix e (e @ s)" by simp
  with assms have "leading_space (e @ s) \<noteq> None"
    unfolding leading_space_None_iff by blast
  then obtain e' where e': "leading_space (e @ s) = Some e'" by blast
  from leading_space_unique [OF e' assms] show ?thesis using e' by simp
qed

lemma clear_in_Cons:
  "clear_in (c # u) r \<longleftrightarrow> leading_space (c # u @ r) = None \<and> clear_in u r"
  unfolding clear_in_def
  by (auto simp: less_Suc_eq_0_disj)

lemma fields_from_clear:
  "clear_in u r \<Longrightarrow> fields_from tok (u @ r) = fields_from (tok @ u) r"
proof (induction u arbitrary: tok)
  case Nil
  then show ?case by simp
next
  case (Cons c u)
  then show ?case by (simp add: clear_in_Cons)
qed

lemma prefix_drop_sublist: "prefix e (drop i t) \<Longrightarrow> sublist e t"
proof -
  assume "prefix e (drop i t)"
  then have "sublist e (drop i t)" by (rule prefix_imp_sublist)
  also have "sublist (drop i t) t" by (rule sublist_drop)
  finally show ?thesis .
qed

lemma is_token_clear_end: "is_token t \<Longrightarrow> clear_in t []"
  unfolding is_token_def clear_in_def leading_space_None_iff
proof (intro allI impI ballI)
  fix i e
  assume t: "t \<noteq> [] \<and> (\<forall>e\<in>set space_runes. \<not> sublist e t)" and e: "e \<in> set space_runes"
  show "\<not> prefix e (drop i (t @ []))"
  proof
    assume "prefix e (drop i (t @ []))"
    then have "sublist e t" by (simp add: prefix_drop_sublist)
    with t e show False by blast
  qed
qed

lemma is_token_clear_rune:
  assumes t: "is_token t" and e: "e \<in> set space_runes"
  shows "clear_in t (e @ s)"
  unfolding clear_in_def leading_space_None_iff
proof (intro allI impI ballI)
  fix i e'
  assume i: "i < length t" and e': "e' \<in> set space_runes"
  show "\<not> prefix e' (drop i (t @ e @ s))"
  proof
    assume "prefix e' (drop i (t @ e @ s))"
    with i have p: "prefix e' (drop i t @ e @ s)" by simp
    from t e' have ns: "\<not> sublist e' t" by (simp add: is_token_def)
    have np: "\<not> prefix e' (drop i t)"
    proof
      assume "prefix e' (drop i t)"
      then have "sublist e' t" by (rule prefix_drop_sublist)
      with ns show False ..
    qed
    from p have "prefix e' (drop i t) \<or> (\<exists>us. e' = drop i t @ us \<and> prefix us (e @ s))"
      by (simp only: prefix_append)
    with np obtain q where q1: "e' = drop i t @ q" and q3: "prefix q (e @ s)" by blast
    have q2: "q \<noteq> []"
    proof
      assume "q = []"
      with q1 have "prefix e' (drop i t)" by simp
      with np show False ..
    qed
    then obtain a q' where q: "q = a # q'" by (cases q) auto
    from e have "e \<noteq> []" by (rule space_runes_nonempty)
    then obtain b e'' where eb: "e = b # e''" by (cases e) auto
    from q3 have ab: "a = b" unfolding q eb by simp
    from i obtain d ds where d: "drop i t = d # ds" by (cases "drop i t") auto
    have "a \<in> set (tl e')" unfolding q1 d q by simp
    with space_runes_bytes_all e' have "is_cont a" by blast
    moreover from space_runes_bytes_all e have "\<not> is_cont b" unfolding eb by fastforce
    ultimately show False using ab by simp
  qed
qed

lemma Fields_splits_unique: "splits_into s ts \<Longrightarrow> Fields s = ts"
proof (induction rule: splits_into.induct)
  case split_end
  show ?case by (simp add: Fields_def flush_def)
next
  case (split_space e s ts)
  then show ?case
    by (simp add: Fields_def fields_from_nonempty space_runes_nonempty leading_space_at_rune flush_def)
next
  case (split_last t)
  from fields_from_clear [OF is_token_clear_end [OF this], of "[]"] split_last
  show ?case by (simp add: Fields_def flush_def is_token_def)
next
  case (split_token t e s ts)
  from fields_from_clear [OF is_token_clear_rune [OF split_token(1,2)], of "[]" s] split_token
  show ?case
    by (simp add: Fields_def fields_from_nonempty space_runes_nonempty leading_space_at_rune flush_def is_token_def)
qed

lemma clear_in_token: "tok \<noteq> [] \<Longrightarrow> clear_in tok r \<Longrightarrow> is_token tok"
  unfolding is_token_def clear_in_def leading_space_None_iff
proof (intro conjI ballI)
  fix e
  assume c: "\<forall>i<length tok. \<forall>e\<in>set space_runes. \<not> prefix e (drop i (tok @ r))"
    and e: "e \<in> set space_runes" and ne: "tok \<noteq> []"
  show "\<not> sublist e tok"
  proof
    assume "sublist e tok"
    then obtain ps ss where tok: "tok = ps @ e @ ss" unfolding sublist_def by blast
    from e have "e \<noteq> []" by (rule space_runes_nonempty)
    with tok have "length ps < length tok" by simp
    moreover from tok have "prefix e (drop (length ps) (tok @ r))" by simp
    ultimately show False using c e by blast
  qed
qed simp

lemma clear_in_snoc:
  "clear_in tok (c # s) \<Longrightarrow> leading_space (c # s) = None \<Longrightarrow> clear_in (tok @ [c]) s"
  unfolding clear_in_def
  by (auto simp: less_Suc_eq)

lemma fields_from_splits:
  "clear_in tok s \<Longrightarrow> splits_into (tok @ s) (fields_from tok s)"
proof (induction tok s rule: fields_from.induct)
  case (1 tok)
  then show ?case
    by (auto simp: flush_def intro: split_end split_last clear_in_token)
next
  case (2 tok c s)
  show ?case
  proof (cases "leading_space (c # s)")
    case None
    from 2(1) [OF None clear_in_snoc [OF 2(3) None]] None
    show ?thesis by simp
  next
    case (Some e)
    then have e: "e \<in> set space_runes" and p: "prefix e (c # s)"
      by (simp_all add: leading_space_Some)
    from p have cs: "c # s = e @ drop (length e) (c # s)"
      by (metis append_eq_conv_conj prefix_def)
    have "clear_in [] (drop (length e) (c # s))" by (simp add: clear_in_def)
    from 2(2) [OF Some this]
    have ih: "splits_into (drop (length e) (c # s)) (fields_from [] (drop (length e) (c # s)))"
      by simp
    show ?thesis
    proof (cases "tok = []")
      case True
      with split_space [OF e ih] cs Some show ?thesis by (simp add: flush_def)
    next
      case False
      from False 2(3) have "is_token tok" by (rule clear_in_token)
      from split_token [OF this e ih] cs Some False show ?thesis by (simp add: flush_def)
    qed
  qed
qed

lemma Fields_splits: "splits_into s (Fields s)"
  using fields_from_splits [of "[]" s] by (simp add: Fields_def clear_in_def)

lemma splits_into_iff [code]: "splits_into s ts \<longleftrightarrow> Fields s = ts"
  using Fields_splits Fields_splits_unique by blast

lemma whitespace_only_iff [code]: "whitespace_only s \<longleftrightarrow> Fields s = []"
  by (simp add: Fields_Nil_iff)

subsection \<open>Validation of the target\<close>

text \<open>
  C2. \<open>Run\<close> fails with \<open>EmptyTarget\<close> exactly when the target is the empty string,
  and with \<open>InvalidTarget\<close>, another error, exactly when the target is not empty and
  is white space only, that is when \<open>strings.Fields\<close> finds no token in it. No other
  target is rejected before the launch: \<open>Run\<close> starts no command exactly for the
  targets that are white space only, the empty one among them.
\<close>

theorem Run_validation:
  "(fst (Run e w) = Some EmptyTarget) = (Target e = []) \<and>
   (fst (Run e w) = Some InvalidTarget) = (Target e \<noteq> [] \<and> whitespace_only (Target e)) \<and>
   EmptyTarget \<noteq> InvalidTarget \<and>
   (started (snd (Run e w)) = started w) = whitespace_only (Target e)"
proof (cases "Target e = []")
  case True
  then show ?thesis by (simp add: Run_def blank_empty)
next
  case False
  show ?thesis
  proof (cases "Fields (Target e)")
    case Nil
    with False show ?thesis
      by (simp add: Run_def Fields_Nil_iff [symmetric])
  next
    case (Cons command rest)
    with False show ?thesis
      by (auto simp: Run_def Let_def cmd_Run_def Fields_Nil_iff [symmetric])
  qed
qed

theorem Run_validation_witness:
  "fst (Run \<lparr>Target = [], Environment = []\<rparr> fresh_world) = Some EmptyTarget \<and>
   fst (Run \<lparr>Target = ''   '', Environment = []\<rparr> fresh_world) = Some InvalidTarget \<and>
   started (snd (Run \<lparr>Target = ''echo hello world'', Environment = []\<rparr> fresh_world)) \<noteq> []"
  using Run_validation [of "\<lparr>Target = [], Environment = []\<rparr>" fresh_world]
    Run_validation [of "\<lparr>Target = ''   '', Environment = []\<rparr>" fresh_world]
    Run_validation [of "\<lparr>Target = ''echo hello world'', Environment = []\<rparr>" fresh_world]
  by (simp add: Fields_Nil_iff [symmetric] Fields_def leading_space_def space_runes_def
      flush_def fresh_world_def)

subsection \<open>Tokens of the target\<close>

text \<open>
  C8. \<open>strings.Fields\<close> splits every target on runs of white space. When the target
  splits into a first token and the remaining ones, \<open>Run\<close> starts one command: its
  name is the first token and its positional arguments are the remaining tokens, each
  as it stands in the target and in the same order; quotes and shell characters are
  bytes of a token like any other.
\<close>

theorem Run_tokenization:
  "splits_into (Target e) (Fields (Target e)) \<and>
   (splits_into (Target e) (command # rest) \<longrightarrow>
      started (snd (Run e w)) =
        started w @ [\<lparr>Name = command, Args = rest,
                      Env = (if Environment e = [] then None
                             else Some (overlay (environ w) (Environment e)))\<rparr>] \<and>
      fst (Run e w) = map_option SysError (child w \<lparr>Name = command, Args = rest,
                      Env = (if Environment e = [] then None
                             else Some (overlay (environ w) (Environment e)))\<rparr>))"
proof (intro conjI impI)
  show "splits_into (Target e) (Fields (Target e))" by (rule Fields_splits)
next
  assume "splits_into (Target e) (command # rest)"
  then have f: "Fields (Target e) = command # rest" by (rule Fields_splits_unique)
  then have ne: "Target e \<noteq> []" by (auto simp: Fields_def flush_def)
  from f ne show "started (snd (Run e w)) =
        started w @ [\<lparr>Name = command, Args = rest,
                      Env = (if Environment e = [] then None
                             else Some (overlay (environ w) (Environment e)))\<rparr>]"
    by (simp add: Run_def Let_def cmd_Run_def exec_Command_def)
  from f ne show "fst (Run e w) = map_option SysError (child w \<lparr>Name = command, Args = rest,
                      Env = (if Environment e = [] then None
                             else Some (overlay (environ w) (Environment e)))\<rparr>)"
    by (simp add: Run_def Let_def cmd_Run_def exec_Command_def)
qed

theorem Run_tokenization_witness:
  \<open>splits_into ''sh -c "echo  $HOME" *'' [''sh'', ''-c'', ''"echo'', ''$HOME"'', ''*''] \<and>
   started (snd (Run \<lparr>Target = ''sh -c "echo  $HOME" *'', Environment = []\<rparr> fresh_world)) =
     [\<lparr>Name = ''sh'', Args = [''-c'', ''"echo'', ''$HOME"'', ''*''], Env = None\<rparr>]\<close>
proof -
  have f: \<open>Fields ''sh -c "echo  $HOME" *'' = [''sh'', ''-c'', ''"echo'', ''$HOME"'', ''*'']\<close>
    by (simp add: Fields_def leading_space_def space_runes_def flush_def)
  have s: \<open>splits_into ''sh -c "echo  $HOME" *'' [''sh'', ''-c'', ''"echo'', ''$HOME"'', ''*'']\<close>
    using Fields_splits [of \<open>''sh -c "echo  $HOME" *''\<close>] unfolding f .
  from Run_tokenization [of \<open>\<lparr>Target = ''sh -c "echo  $HOME" *'', Environment = []\<rparr>\<close>
      "''sh''" \<open>[''-c'', ''"echo'', ''$HOME"'', ''*'']\<close> fresh_world] s
  show ?thesis by (simp add: fresh_world_def)
qed

subsection \<open>Environment of the child\<close>

lemma overlay_formatted: "overlay env vars = env @ formatted vars"
  unfolding overlay_def formatted_def
  by (induction vars arbitrary: env) (auto split: prod.splits)

lemma env_value_append:
  "env_value (a @ b) name =
     (case env_value b name of Some v \<Rightarrow> Some v | None \<Rightarrow> env_value a name)"
  by (induction a) (auto split: option.splits)

lemma takeWhile_until: "c \<notin> set k \<Longrightarrow> takeWhile (\<lambda>x. x \<noteq> c) (k @ c # v) = k"
  by (induction k) auto

lemma dropWhile_until: "c \<notin> set k \<Longrightarrow> dropWhile (\<lambda>x. x \<noteq> c) (k @ c # v) = c # v"
  by (induction k) auto

lemma entry_of_formatted:
  "CHR ''='' \<notin> set k \<Longrightarrow> entry_of (k @ CHR ''='' # v) = Some (k, v)"
  by (simp add: entry_of_def takeWhile_until dropWhile_until)

lemma env_value_formatted:
  "distinct (map fst vars) \<Longrightarrow> \<forall>(k, v)\<in>set vars. CHR ''='' \<notin> set k \<Longrightarrow>
     env_value (formatted vars) name = map_of vars name"
proof (induction vars)
  case Nil
  show ?case by (simp add: formatted_def)
next
  case (Cons kv vars)
  obtain k v where kv: "kv = (k, v)" by (cases kv)
  from Cons.prems kv have k: "CHR ''='' \<notin> set k" and d: "k \<notin> fst ` set vars" by auto
  from Cons have ih: "env_value (formatted vars) name = map_of vars name"
    by (simp add: formatted_def)
  have f: "formatted ((k, v) # vars) = (k @ CHR ''='' # v) # formatted vars"
    by (simp add: formatted_def)
  from d have n: "map_of vars k = None" by (simp add: map_of_eq_None_iff)
  show ?case
    unfolding kv f
    using ih n by (cases "name = k") (simp_all add: entry_of_formatted [OF k] split: option.splits)
qed

text \<open>
  C1. For a target with at least one token, \<open>Run\<close> starts one command. When the
  environment has no variable, the \<open>Env\<close> field stays nil: nothing is overlaid and the
  child runs in the environment of the process as it is. When it has variables, \<open>Env\<close>
  is the whole environment of the process followed by one entry \<open>key=value\<close> for each
  variable; the child reads the last entry of a key, so an added entry wins over an
  inherited one, and a name that is not configured keeps its inherited value. The
  variables of a Go map have distinct names; for names without \<open>=\<close> the child reads, for
  each configured name, the configured value.
\<close>

theorem Run_environment_overlay:
  "Fields (Target e) = command # rest \<Longrightarrow>
   (Environment e = [] \<longrightarrow>
      started (snd (Run e w)) = started w @ [\<lparr>Name = command, Args = rest, Env = None\<rparr>] \<and>
      child_environ w \<lparr>Name = command, Args = rest, Env = None\<rparr> = environ w) \<and>
   (Environment e \<noteq> [] \<longrightarrow>
      started (snd (Run e w)) =
        started w @ [\<lparr>Name = command, Args = rest,
                      Env = Some (environ w @ formatted (Environment e))\<rparr>] \<and>
      (\<forall>name. env_value (environ w @ formatted (Environment e)) name =
         (case env_value (formatted (Environment e)) name of
            Some v \<Rightarrow> Some v
          | None \<Rightarrow> env_value (environ w) name)) \<and>
      (distinct (map fst (Environment e)) \<and> (\<forall>(k, v)\<in>set (Environment e). CHR ''='' \<notin> set k) \<longrightarrow>
         (\<forall>name. env_value (environ w @ formatted (Environment e)) name =
            (case map_of (Environment e) name of
               Some v \<Rightarrow> Some v
             | None \<Rightarrow> env_value (environ w) name))))"
proof -
  assume f: "Fields (Target e) = command # rest"
  then have ne: "Target e \<noteq> []" by (auto simp: Fields_def flush_def)
  show ?thesis
  proof (intro conjI impI allI)
    assume "Environment e = []"
    with f ne show "started (snd (Run e w)) = started w @ [\<lparr>Name = command, Args = rest, Env = None\<rparr>]"
      by (simp add: Run_def Let_def cmd_Run_def exec_Command_def)
  next
    show "child_environ w \<lparr>Name = command, Args = rest, Env = None\<rparr> = environ w"
      by (simp add: child_environ_def)
  next
    assume "Environment e \<noteq> []"
    with f ne show "started (snd (Run e w)) =
        started w @ [\<lparr>Name = command, Args = rest,
                      Env = Some (environ w @ formatted (Environment e))\<rparr>]"
      by (simp add: Run_def Let_def cmd_Run_def exec_Command_def overlay_formatted)
  next
    fix name
    show "env_value (environ w @ formatted (Environment e)) name =
         (case env_value (formatted (Environment e)) name of
            Some v \<Rightarrow> Some v
          | None \<Rightarrow> env_value (environ w) name)"
      by (rule env_value_append)
  next
    fix name
    assume "distinct (map fst (Environment e)) \<and> (\<forall>(k, v)\<in>set (Environment e). CHR ''='' \<notin> set k)"
    then show "env_value (environ w @ formatted (Environment e)) name =
            (case map_of (Environment e) name of
               Some v \<Rightarrow> Some v
             | None \<Rightarrow> env_value (environ w) name)"
      by (simp add: env_value_append env_value_formatted)
  qed
qed

theorem Run_environment_overlay_witness:
  "started (snd (Run \<lparr>Target = ''claude --fast'',
                       Environment = [(''PATH'', ''/custom''), (''FOO'', ''bar'')]\<rparr> fresh_world)) =
     [\<lparr>Name = ''claude'', Args = [''--fast''],
       Env = Some [''HOME=/home/u'', ''PATH=/bin'', ''PATH=/custom'', ''FOO=bar'']\<rparr>] \<and>
   env_value [''HOME=/home/u'', ''PATH=/bin'', ''PATH=/custom'', ''FOO=bar''] ''PATH'' = Some ''/custom'' \<and>
   env_value [''HOME=/home/u'', ''PATH=/bin'', ''PATH=/custom'', ''FOO=bar''] ''HOME'' = Some ''/home/u'' \<and>
   started (snd (Run \<lparr>Target = ''claude --fast'', Environment = []\<rparr> fresh_world)) =
     [\<lparr>Name = ''claude'', Args = [''--fast''], Env = None\<rparr>]"
proof -
  let ?vars = "[(''PATH'', ''/custom''), (''FOO'', ''bar'')]"
  let ?a = "\<lparr>Target = ''claude --fast'', Environment = ?vars\<rparr>"
  let ?b = "\<lparr>Target = ''claude --fast'', Environment = []\<rparr>"
  have f: "Fields ''claude --fast'' = [''claude'', ''--fast'']"
    by (simp add: Fields_def leading_space_def space_runes_def flush_def)
  then have f1: "Fields (Target ?a) = [''claude'', ''--fast'']"
    and f0: "Fields (Target ?b) = [''claude'', ''--fast'']" by simp_all
  have d: "distinct (map fst (Environment ?a)) \<and>
           (\<forall>(k, v)\<in>set (Environment ?a). CHR ''='' \<notin> set k)" by simp
  have ne: "Environment ?a \<noteq> []" by simp
  note t = Run_environment_overlay [OF f1, of fresh_world, THEN conjunct2, THEN mp, OF ne]
  note t0 = Run_environment_overlay [OF f0, of fresh_world, THEN conjunct1, THEN mp,
      THEN conjunct1]
  from t have s: "started (snd (Run ?a fresh_world)) =
       started fresh_world @ [\<lparr>Name = ''claude'', Args = [''--fast''],
          Env = Some (environ fresh_world @ formatted (Environment ?a))\<rparr>]" by (rule conjunct1)
  from t [THEN conjunct2, THEN conjunct2, THEN mp, OF d]
  have v: "env_value (environ fresh_world @ formatted (Environment ?a)) name =
            (case map_of (Environment ?a) name of
               Some v \<Rightarrow> Some v
             | None \<Rightarrow> env_value (environ fresh_world) name)" for name by (rule spec)
  have b: "environ fresh_world @ formatted (Environment ?a) =
      [''HOME=/home/u'', ''PATH=/bin'', ''PATH=/custom'', ''FOO=bar'']"
    by (simp add: fresh_world_def formatted_def)
  have h: "env_value (environ fresh_world) ''HOME'' = Some ''/home/u''"
    by (simp add: fresh_world_def entry_of_def)
  from s have "started (snd (Run ?a fresh_world)) =
     [\<lparr>Name = ''claude'', Args = [''--fast''],
       Env = Some [''HOME=/home/u'', ''PATH=/bin'', ''PATH=/custom'', ''FOO=bar'']\<rparr>]"
    unfolding b by (simp add: fresh_world_def)
  moreover from v [of "''PATH''"]
  have "env_value [''HOME=/home/u'', ''PATH=/bin'', ''PATH=/custom'', ''FOO=bar''] ''PATH'' = Some ''/custom''"
    unfolding b by simp
  moreover from v [of "''HOME''"] h
  have "env_value [''HOME=/home/u'', ''PATH=/bin'', ''PATH=/custom'', ''FOO=bar''] ''HOME'' = Some ''/home/u''"
    unfolding b by simp
  moreover from t0 have "started (snd (Run ?b fresh_world)) =
     [\<lparr>Name = ''claude'', Args = [''--fast''], Env = None\<rparr>]"
    by (simp add: fresh_world_def)
  ultimately show ?thesis by blast
qed

subsection \<open>Loading the configuration\<close>

lemma GetConfigPath_home:
  "home_dir w' = home_dir w \<Longrightarrow> GetConfigPath w' = GetConfigPath w"
  by (simp add: GetConfigPath_def GetConfigDir_def os_UserHomeDir_def)

lemma GetConfigPath_Print [simp]: "GetConfigPath (Print s w) = GetConfigPath w"
  by (rule GetConfigPath_home) (simp add: Print_def)

lemma GetConfigPath_Println [simp]: "GetConfigPath (Println s w) = GetConfigPath w"
  by (simp add: Println_def)

lemma blocked_files: "files w' = files w \<Longrightarrow> blocked w' p = blocked w p"
  by (simp add: blocked_def)

lemma blocked_update [simp]:
  "blocked (w\<lparr>stdout := a\<rparr>) p = blocked w p"
  "blocked (w\<lparr>stderr := a\<rparr>) p = blocked w p"
  "blocked (w\<lparr>dirs := d\<rparr>) p = blocked w p"
  "blocked (w\<lparr>os_Args := b\<rparr>) p = blocked w p"
  "blocked (w\<lparr>started := c\<rparr>) p = blocked w p"
  by (simp_all add: blocked_def)

lemma blocked_no_files: "files w = Map.empty \<Longrightarrow> \<not> blocked w p"
  by (simp add: blocked_def list_ex_iff)

lemma os_Stat_file: "files w p = Some data \<Longrightarrow> os_Stat w p \<noteq> StatNotExist"
  by (auto simp: os_Stat_def)

lemma LoadConfig_home_unknown:
  "GetConfigPath w = Inl err \<Longrightarrow> LoadConfig u w = (Inl err, w)"
  by (simp add: LoadConfig_def)

lemma LoadConfig_present:
  "GetConfigPath w = Inr p \<Longrightarrow> os_Stat w p \<noteq> StatNotExist \<Longrightarrow>
     LoadConfig u w = (read_config u p w, w)"
  by (simp add: LoadConfig_def os_IsNotExist_def)

lemma LoadConfig_absent_failed:
  "GetConfigPath w = Inr p \<Longrightarrow> os_Stat w p = StatNotExist \<Longrightarrow>
   createDefaultConfig p w = (Some err, w1) \<Longrightarrow>
     LoadConfig u w = (Inl (ConfigWriteError err), w1)"
  by (simp add: LoadConfig_def os_IsNotExist_def)

lemma LoadConfig_absent_created:
  "GetConfigPath w = Inr p \<Longrightarrow> os_Stat w p = StatNotExist \<Longrightarrow>
   createDefaultConfig p w = (None, w1) \<Longrightarrow>
     LoadConfig u w = (read_config u p (Print (notices p) w1), Print (notices p) w1)"
  by (simp add: LoadConfig_def os_IsNotExist_def Let_def Println_def Print_def notices_def)

lemma createDefaultConfig_ok:
  "createDefaultConfig p w = (None, w1) \<Longrightarrow>
     w1 = w\<lparr>dirs := insert (filepath_Dir p) (dirs w \<union> set (parents (filepath_Dir p))),
            files := (files w)(p \<mapsto> defaultConfig)\<rparr>"
  by (auto simp: createDefaultConfig_def os_MkdirAll_def os_WriteFile_def Let_def
      split: if_splits)

lemma createDefaultConfig_failed:
  "createDefaultConfig p w = (Some err, w1) \<Longrightarrow>
     w1 = w \<or>
     w1 = w\<lparr>dirs := insert (filepath_Dir p) (dirs w \<union> set (parents (filepath_Dir p)))\<rparr>"
  by (auto simp: createDefaultConfig_def os_MkdirAll_def os_WriteFile_def Let_def
      split: if_splits)

lemma read_config_file:
  "read_config u p w = Inr cfg \<Longrightarrow> \<exists>data. files w p = Some data"
  by (auto simp: read_config_def os_ReadFile_def split: if_splits option.splits sum.splits)

lemma LoadConfig_cases:
  assumes "GetConfigPath w = Inr p"
  obtains (present) "os_Stat w p \<noteq> StatNotExist" "LoadConfig u w = (read_config u p w, w)"
  | (failed) err w1 where "os_Stat w p = StatNotExist" "createDefaultConfig p w = (Some err, w1)"
      "LoadConfig u w = (Inl (ConfigWriteError err), w1)"
  | (created) w1 where "os_Stat w p = StatNotExist" "createDefaultConfig p w = (None, w1)"
      "LoadConfig u w = (read_config u p (Print (notices p) w1), Print (notices p) w1)"
proof (cases "os_Stat w p = StatNotExist")
  case False
  with assms show ?thesis by (auto intro: present LoadConfig_present)
next
  case True
  obtain r w1 where c: "createDefaultConfig p w = (r, w1)" by (cases "createDefaultConfig p w")
  show ?thesis
  proof (cases r)
    case None
    with assms True c show ?thesis by (auto intro: created LoadConfig_absent_created)
  next
    case (Some err)
    with assms True c show ?thesis by (auto intro: failed LoadConfig_absent_failed)
  qed
qed

lemma LoadConfig_home_dir: "home_dir (snd (LoadConfig u w)) = home_dir w"
proof (cases "GetConfigPath w")
  case (Inl err)
  then show ?thesis by (simp add: LoadConfig_home_unknown)
next
  case (Inr p)
  then show ?thesis
  proof (cases rule: LoadConfig_cases [where u = u])
    case present
    then show ?thesis by simp
  next
    case (failed err w1)
    from createDefaultConfig_failed [OF failed(2)] failed(3) show ?thesis by auto
  next
    case (created w1)
    from createDefaultConfig_ok [OF created(2)] created(3) show ?thesis
      by (simp add: Print_def)
  qed
qed

lemma LoadConfig_success_file:
  assumes "fst (LoadConfig u w) = Inr cfg" and "GetConfigPath w = Inr p"
  shows "\<exists>data. files (snd (LoadConfig u w)) p = Some data"
  using assms(2)
proof (cases rule: LoadConfig_cases [where u = u])
  case present
  with assms(1) show ?thesis by (auto dest: read_config_file)
next
  case (failed err w1)
  with assms(1) show ?thesis by simp
next
  case (created w1)
  with assms(1) show ?thesis by (auto dest: read_config_file)
qed

lemma LoadConfig_changes:
  assumes ch: "snd (LoadConfig u w) \<noteq> w"
  shows "\<exists>p. GetConfigPath w = Inr p \<and> os_Stat w p = StatNotExist \<and> files w p = None"
proof (cases "GetConfigPath w")
  case (Inl err)
  with ch show ?thesis by (simp add: LoadConfig_home_unknown)
next
  case (Inr p)
  have "os_Stat w p = StatNotExist"
  proof (rule ccontr)
    assume "os_Stat w p \<noteq> StatNotExist"
    with Inr ch show False by (simp add: LoadConfig_present)
  qed
  moreover from this have "files w p = None"
    by (auto simp: os_Stat_def split: if_splits)
  ultimately show ?thesis using Inr by simp
qed

lemma LoadConfig_files_change:
  assumes ch: "files (snd (LoadConfig u w)) \<noteq> files w"
  shows "\<exists>p. GetConfigPath w = Inr p \<and> files w p = None \<and>
           files (snd (LoadConfig u w)) = (files w)(p \<mapsto> defaultConfig)"
proof (cases "GetConfigPath w")
  case (Inl err)
  with ch show ?thesis by (simp add: LoadConfig_home_unknown)
next
  case (Inr p)
  then show ?thesis
  proof (cases rule: LoadConfig_cases [where u = u])
    case present
    with ch show ?thesis by simp
  next
    case (failed err w1)
    from createDefaultConfig_failed [OF failed(2)] failed(3) ch show ?thesis by auto
  next
    case (created w1)
    from created(1) have "files w p = None"
      by (auto simp: os_Stat_def split: if_splits)
    with createDefaultConfig_ok [OF created(2)] created(3) Inr show ?thesis
      by (simp add: Print_def)
  qed
qed

lemma LoadConfig_twice:
  assumes ok: "fst (LoadConfig u w) = Inr cfg"
  shows "snd (LoadConfig u (snd (LoadConfig u w))) = snd (LoadConfig u w)"
proof -
  let ?w = "snd (LoadConfig u w)"
  from ok obtain p where p: "GetConfigPath w = Inr p"
    by (cases "GetConfigPath w") (auto simp: LoadConfig_home_unknown)
  then have "GetConfigPath ?w = Inr p"
    using GetConfigPath_home [OF LoadConfig_home_dir, of u w] by simp
  moreover from LoadConfig_success_file [OF ok p] obtain data where "files ?w p = Some data" ..
  ultimately show "snd (LoadConfig u ?w) = ?w"
    by (simp add: LoadConfig_present os_Stat_file)
qed

subsection \<open>The concrete states, evaluated\<close>

lemma home_config_path: "filepath_Join (filepath_Join ''/home/u'' ''.cs'') ''config.yaml'' = ''/home/u/.cs/config.yaml''"
  by code_simp

lemma home_config_dir: "filepath_Dir ''/home/u/.cs/config.yaml'' = ''/home/u/.cs''"
  by code_simp

lemma home_config_parents:
  "parents ''/home/u/.cs'' = [''/home'', ''/home/u'']"
  "parents ''/home/u/.cs/config.yaml'' = [''/home'', ''/home/u'', ''/home/u/.cs'']"
  by code_simp+

lemma fresh_config_path: "GetConfigPath fresh_world = Inr ''/home/u/.cs/config.yaml''"
  by (simp add: GetConfigPath_def GetConfigDir_def os_UserHomeDir_def fresh_world_def home_config_path)

lemma configured_config_path: "GetConfigPath configured_world = Inr ''/home/u/.cs/config.yaml''"
  by (simp add: GetConfigPath_def GetConfigDir_def os_UserHomeDir_def configured_world_def fresh_world_def home_config_path)

lemma default_parsed:
  "yaml_Unmarshal defaultConfig =
     Inr \<lparr>Environments = Some [(''glm'', \<lparr>Target = ''claude'', Environment =
       [(''CLAUDE_CODE_DISABLE_NONESSENTIAL_TRAFFIC'', ''1''),
        (''ANTHROPIC_BASE_URL'', ''https://open.bigmodel.cn/api/anthropic''),
        (''ANTHROPIC_AUTH_TOKEN'', ''your-glm-api-key''),
        (''ANTHROPIC_MODEL'', ''glm-4.6''),
        (''ANTHROPIC_SMALL_FAST_MODEL'', ''glm-4.5-air''),
        (''ANTHROPIC_DEFAULT_SONNET_MODEL'', ''glm-4.6''),
        (''ANTHROPIC_DEFAULT_OPUS_MODEL'', ''glm-4.6''),
        (''ANTHROPIC_DEFAULT_HAIKU_MODEL'', ''glm-4.5-air''),
        (''API_TIMEOUT_MS'', ''3000000'')]\<rparr>)]\<rparr>"
  by code_simp

lemma sample_parsed:
  "yaml_Unmarshal sample_config =
     Inr \<lparr>Environments = Some
       [(''testenv'', \<lparr>Target = ''echo hello'', Environment = [(''TEST_VAR'', ''test_value'')]\<rparr>),
        (''another'', \<lparr>Target = ''pwd'', Environment = [(''PATH'', ''/custom/path'')]\<rparr>)]\<rparr>"
  by code_simp

lemma no_section_parsed:
  "yaml_Unmarshal ''# nothing here'' = Inr \<lparr>Environments = None\<rparr>"
  "yaml_Unmarshal ''environments:'' = Inr \<lparr>Environments = None\<rparr>"
  "yaml_Unmarshal ''environments: {}'' = Inr \<lparr>Environments = Some []\<rparr>"
  "yaml_Unmarshal ''environments: null'' = Inr \<lparr>Environments = None\<rparr>"
  by code_simp+

lemma fresh_blocked [simp]: "\<not> blocked fresh_world p"
  by (rule blocked_no_files) (simp add: fresh_world_def)

lemma fresh_stat: "os_Stat fresh_world ''/home/u/.cs/config.yaml'' = StatNotExist"
  using fresh_blocked [of "''/home/u/.cs/config.yaml''"]
  by (simp add: os_Stat_def fresh_world_def)

lemma fresh_create:
  "createDefaultConfig ''/home/u/.cs/config.yaml'' fresh_world =
    (None, fresh_world\<lparr>dirs := {''/home'', ''/home/u'', ''/home/u/.cs''},
                    files := [''/home/u/.cs/config.yaml'' \<mapsto> defaultConfig]\<rparr>)"
  by (simp add: createDefaultConfig_def home_config_dir os_MkdirAll_def os_WriteFile_def
      fresh_world_def blocked_def home_config_parents insert_commute)

lemma fresh_load:
  "LoadConfig yaml_Unmarshal fresh_world =
    (yaml_Unmarshal defaultConfig,
     Print (notices ''/home/u/.cs/config.yaml'')
       (fresh_world\<lparr>dirs := {''/home'', ''/home/u'', ''/home/u/.cs''},
                    files := [''/home/u/.cs/config.yaml'' \<mapsto> defaultConfig]\<rparr>))"
  unfolding LoadConfig_absent_created [OF fresh_config_path fresh_stat fresh_create]
  by (simp add: read_config_def os_ReadFile_def Print_def default_parsed fresh_world_def)

lemma configured_file:
  "files configured_world ''/home/u/.cs/config.yaml'' = Some sample_config"
  by (simp add: configured_world_def)

lemma configured_load:
  "LoadConfig yaml_Unmarshal configured_world = (yaml_Unmarshal sample_config, configured_world)"
  unfolding LoadConfig_present [OF configured_config_path os_Stat_file [OF configured_file]]
  by (simp add: read_config_def os_ReadFile_def sample_parsed configured_world_def fresh_world_def)

subsection \<open>An existing file is left alone\<close>

text \<open>
  C5. When the configuration file exists at the resolved path, \<open>LoadConfig\<close> changes
  nothing: it writes no file, makes no directory and prints nothing. The files change
  only when the file was absent, and then only by the default file being written at
  that path. After a load that succeeded the file exists, so the next load changes
  nothing either. Whenever \<open>LoadConfig\<close> changes the state at all, the file was absent
  and \<open>os.Stat\<close> reported so.
\<close>

theorem LoadConfig_never_overwrites:
  "(GetConfigPath w = Inr p \<and> files w p = Some data \<longrightarrow> snd (LoadConfig u w) = w) \<and>
   (files (snd (LoadConfig u w)) \<noteq> files w \<longrightarrow>
      (\<exists>p. GetConfigPath w = Inr p \<and> files w p = None \<and>
           files (snd (LoadConfig u w)) = (files w)(p \<mapsto> defaultConfig))) \<and>
   (fst (LoadConfig u w) = Inr cfg \<longrightarrow>
      snd (LoadConfig u (snd (LoadConfig u w))) = snd (LoadConfig u w)) \<and>
   (snd (LoadConfig u w) \<noteq> w \<longrightarrow>
      (\<exists>p. GetConfigPath w = Inr p \<and> os_Stat w p = StatNotExist \<and> files w p = None))"
proof (intro conjI impI)
  assume "GetConfigPath w = Inr p \<and> files w p = Some data"
  then show "snd (LoadConfig u w) = w"
    by (simp add: LoadConfig_present os_Stat_file)
next
  assume "files (snd (LoadConfig u w)) \<noteq> files w"
  then show "\<exists>p. GetConfigPath w = Inr p \<and> files w p = None \<and>
           files (snd (LoadConfig u w)) = (files w)(p \<mapsto> defaultConfig)"
    by (rule LoadConfig_files_change)
next
  assume "fst (LoadConfig u w) = Inr cfg"
  then show "snd (LoadConfig u (snd (LoadConfig u w))) = snd (LoadConfig u w)"
    by (rule LoadConfig_twice)
next
  assume "snd (LoadConfig u w) \<noteq> w"
  then show "\<exists>p. GetConfigPath w = Inr p \<and> os_Stat w p = StatNotExist \<and> files w p = None"
    by (rule LoadConfig_changes)
qed

theorem LoadConfig_never_overwrites_witness:
  "snd (LoadConfig yaml_Unmarshal configured_world) = configured_world \<and>
   files (snd (LoadConfig yaml_Unmarshal fresh_world)) =
     [''/home/u/.cs/config.yaml'' \<mapsto> defaultConfig] \<and>
   snd (LoadConfig yaml_Unmarshal (snd (LoadConfig yaml_Unmarshal fresh_world))) =
     snd (LoadConfig yaml_Unmarshal fresh_world) \<and>
   os_Stat fresh_world ''/home/u/.cs/config.yaml'' = StatNotExist"
proof -
  note f = configured_file and l = fresh_load
  have c: "files (snd (LoadConfig yaml_Unmarshal fresh_world)) \<noteq> files fresh_world"
    unfolding l by (simp add: Print_def fresh_world_def fun_eq_iff exI [of _ "''/home/u/.cs/config.yaml''"])
  have s: "fst (LoadConfig yaml_Unmarshal fresh_world) = yaml_Unmarshal defaultConfig"
    unfolding l by simp
  note t = LoadConfig_never_overwrites [of configured_world "''/home/u/.cs/config.yaml''"
      sample_config yaml_Unmarshal]
  note t' = LoadConfig_never_overwrites [of fresh_world _ _ yaml_Unmarshal]
  from t configured_config_path f
  have "snd (LoadConfig yaml_Unmarshal configured_world) = configured_world" by blast
  moreover have "files (snd (LoadConfig yaml_Unmarshal fresh_world)) =
     [''/home/u/.cs/config.yaml'' \<mapsto> defaultConfig]"
    using t' [THEN conjunct2, THEN conjunct1, THEN mp, OF c] fresh_config_path
    by (auto simp: fresh_world_def)
  moreover have "snd (LoadConfig yaml_Unmarshal (snd (LoadConfig yaml_Unmarshal fresh_world))) =
     snd (LoadConfig yaml_Unmarshal fresh_world)"
    using t' [THEN conjunct2, THEN conjunct2, THEN conjunct1, THEN mp] s default_parsed
    by simp
  moreover have "os_Stat fresh_world ''/home/u/.cs/config.yaml'' = StatNotExist"
  proof -
    from c have "snd (LoadConfig yaml_Unmarshal fresh_world) \<noteq> fresh_world" by auto
    from t' [THEN conjunct2, THEN conjunct2, THEN conjunct2, THEN mp, OF this]
      fresh_config_path
    show ?thesis by auto
  qed
  ultimately show ?thesis by blast
qed

subsection \<open>The map that \<open>LoadConfig\<close> returns is never nil\<close>

lemma read_config_nil:
  "os_ReadFile w p = Inr data \<Longrightarrow> u data = Inr c \<Longrightarrow>
     read_config u p w = Inr (if Environments c = None then c\<lparr>Environments := Some []\<rparr> else c)"
  by (simp add: read_config_def)

lemma read_config_not_nil: "read_config u p w = Inr cfg \<Longrightarrow> Environments cfg \<noteq> None"
  by (auto simp: read_config_def split: sum.splits if_splits)

lemma os_ReadFile_file:
  "files w p = Some data \<Longrightarrow> p \<notin> read_fault w \<Longrightarrow> os_ReadFile w p = Inr data"
  by (simp add: os_ReadFile_def)

lemma LoadConfig_not_nil:
  assumes "fst (LoadConfig u w) = Inr cfg"
  shows "Environments cfg \<noteq> None"
proof (cases "GetConfigPath w")
  case (Inl err)
  with assms show ?thesis by (simp add: LoadConfig_home_unknown)
next
  case (Inr p)
  then show ?thesis
  proof (cases rule: LoadConfig_cases [where u = u])
    case present
    with assms show ?thesis by (auto dest: read_config_not_nil)
  next
    case (failed err w1)
    with assms show ?thesis by simp
  next
    case (created w1)
    with assms show ?thesis by (auto dest: read_config_not_nil)
  qed
qed

lemma LoadConfig_of_file:
  assumes "GetConfigPath w = Inr p" and "files w p = Some data" and "p \<notin> read_fault w"
    and "u data = Inr c"
  shows "LoadConfig u w =
    (Inr (if Environments c = None then c\<lparr>Environments := Some []\<rparr> else c), w)"
  using assms
  by (simp add: LoadConfig_present os_Stat_file read_config_nil os_ReadFile_file)

text \<open>
  C4. A configuration that \<open>LoadConfig\<close> returns never has the nil map. When the file
  exists and can be read, and its content parses with no \<open>environments\<close> section
  (absent or null, the map is then nil) or with an empty one, \<open>LoadConfig\<close> returns the
  empty map: it has no entry, no name is listed and every lookup finds nothing.
\<close>

theorem LoadConfig_empty_environments:
  "(fst (LoadConfig u w) = Inr cfg \<longrightarrow> Environments cfg \<noteq> None) \<and>
   (GetConfigPath w = Inr p \<and> files w p = Some data \<and> p \<notin> read_fault w \<and>
    u data = Inr c \<and> (Environments c = None \<or> Environments c = Some []) \<longrightarrow>
      fst (LoadConfig u w) = Inr \<lparr>Environments = Some []\<rparr> \<and>
      entries \<lparr>Environments = Some []\<rparr> = [] \<and>
      listNames \<lparr>Environments = Some []\<rparr> = [] \<and>
      lookup \<lparr>Environments = Some []\<rparr> name = None)"
proof (intro conjI impI)
  assume "fst (LoadConfig u w) = Inr cfg"
  then show "Environments cfg \<noteq> None" by (rule LoadConfig_not_nil)
next
  assume h: "GetConfigPath w = Inr p \<and> files w p = Some data \<and> p \<notin> read_fault w \<and>
    u data = Inr c \<and> (Environments c = None \<or> Environments c = Some [])"
  then have "LoadConfig u w =
    (Inr (if Environments c = None then c\<lparr>Environments := Some []\<rparr> else c), w)"
    using LoadConfig_of_file [of w p data u c] by simp
  with h show "fst (LoadConfig u w) = Inr \<lparr>Environments = Some []\<rparr>"
    by (cases c) auto
qed (simp_all add: entries_def listNames_def lookup_def)

theorem LoadConfig_empty_environments_witness:
  "fst (LoadConfig yaml_Unmarshal
         (fresh_world\<lparr>files := [''/home/u/.cs/config.yaml'' \<mapsto> ''# nothing here'']\<rparr>)) =
     Inr \<lparr>Environments = Some []\<rparr> \<and>
   fst (LoadConfig yaml_Unmarshal
         (fresh_world\<lparr>files := [''/home/u/.cs/config.yaml'' \<mapsto> ''environments:'']\<rparr>)) =
     Inr \<lparr>Environments = Some []\<rparr> \<and>
   fst (LoadConfig yaml_Unmarshal
         (fresh_world\<lparr>files := [''/home/u/.cs/config.yaml'' \<mapsto> ''environments: {}'']\<rparr>)) =
     Inr \<lparr>Environments = Some []\<rparr> \<and>
   fst (LoadConfig yaml_Unmarshal
         (fresh_world\<lparr>files := [''/home/u/.cs/config.yaml'' \<mapsto> ''environments: null'']\<rparr>)) =
     Inr \<lparr>Environments = Some []\<rparr>"
proof -
  have p: "GetConfigPath (fresh_world\<lparr>files := f\<rparr>) = Inr ''/home/u/.cs/config.yaml''" for f
    using GetConfigPath_home [of "fresh_world\<lparr>files := f\<rparr>" fresh_world] fresh_config_path
    by simp
  have r: "''/home/u/.cs/config.yaml'' \<notin> read_fault (fresh_world\<lparr>files := f\<rparr>)" for f
    by (simp add: fresh_world_def)
  have t: "fst (LoadConfig yaml_Unmarshal
         (fresh_world\<lparr>files := [''/home/u/.cs/config.yaml'' \<mapsto> data]\<rparr>)) =
     Inr \<lparr>Environments = Some []\<rparr>"
    if "yaml_Unmarshal data = Inr c" and "Environments c = None \<or> Environments c = Some []"
    for data c
    using LoadConfig_empty_environments [of yaml_Unmarshal
        "fresh_world\<lparr>files := [''/home/u/.cs/config.yaml'' \<mapsto> data]\<rparr>" _
        "''/home/u/.cs/config.yaml''" data c] that p r
    by simp
  show ?thesis
    by (intro conjI; rule t, rule no_section_parsed) simp_all
qed

subsection \<open>Lookup and listing\<close>

lemma Print_Print: "Print s (Print t w) = Print (t @ s) w"
  by (simp add: Print_def)

lemma Print_names:
  "foldl (\<lambda>w name. Print (''  '' @ name @ newline) w) w names = Print (listing names) w"
proof (induction names arbitrary: w)
  case Nil
  show ?case by (simp add: listing_def Print_def)
next
  case (Cons name names)
  then show ?case by (simp add: listing_def Print_Print)
qed

lemma printAvailable_loaded:
  "LoadConfig u w = (Inr cfg, w1) \<Longrightarrow>
     printAvailableEnvironments u w = Print (listing (listNames cfg)) w1"
  unfolding printAvailableEnvironments_def
  by (simp only: prod.case sum.case Print_names)

lemma printAvailable_failed:
  "LoadConfig u w = (Inl err, w1) \<Longrightarrow>
     printAvailableEnvironments u w = Print (unable_note err) w1"
  by (simp add: printAvailableEnvironments_def unable_note_def)

text \<open>
  C7. The lookup of line 176 finds the environment stored under a name exactly when the
  name is a key of the map, compared byte for byte, and finds nothing exactly when it
  is not. When the file exists, can be read and parses to a map of N entries,
  \<open>LoadConfig\<close> returns this map, with its N entries, and the listing prints its N
  names, one on a line.
\<close>

theorem lookup_and_listNames:
  "(distinct (listNames cfg) \<longrightarrow>
      (lookup cfg name = Some e) = ((name, e) \<in> set (entries cfg))) \<and>
   (lookup cfg name = None) = (name \<notin> set (listNames cfg)) \<and>
   (GetConfigPath w = Inr p \<and> files w p = Some data \<and> p \<notin> read_fault w \<and>
    u data = Inr c \<and> Environments c = Some m \<longrightarrow>
      fst (LoadConfig u w) = Inr c \<and> entries c = m \<and>
      length (listNames c) = length m \<and> listNames c = map fst m \<and>
      printAvailableEnvironments u w = Print (listing (map fst m)) w)"
proof (intro conjI impI)
  assume "distinct (listNames cfg)"
  then show "(lookup cfg name = Some e) = ((name, e) \<in> set (entries cfg))"
    by (simp add: lookup_def listNames_def)
next
  show "(lookup cfg name = None) = (name \<notin> set (listNames cfg))"
    by (simp add: lookup_def listNames_def map_of_eq_None_iff)
next
  assume h: "GetConfigPath w = Inr p \<and> files w p = Some data \<and> p \<notin> read_fault w \<and>
    u data = Inr c \<and> Environments c = Some m"
  then have l: "LoadConfig u w = (Inr c, w)"
    using LoadConfig_of_file [of w p data u c] by simp
  then show "fst (LoadConfig u w) = Inr c" by simp
  from h show "entries c = m" by (simp add: entries_def)
  from h show "length (listNames c) = length m" by (simp add: listNames_def entries_def)
  from h show n: "listNames c = map fst m" by (simp add: listNames_def entries_def)
  from printAvailable_loaded [OF l] n
  show "printAvailableEnvironments u w = Print (listing (map fst m)) w" by simp
qed

theorem lookup_and_listNames_witness:
  "lookup \<lparr>Environments = Some
       [(''testenv'', \<lparr>Target = ''echo hello'', Environment = [(''TEST_VAR'', ''test_value'')]\<rparr>),
        (''another'', \<lparr>Target = ''pwd'', Environment = [(''PATH'', ''/custom/path'')]\<rparr>)]\<rparr>
      ''testenv'' =
     Some \<lparr>Target = ''echo hello'', Environment = [(''TEST_VAR'', ''test_value'')]\<rparr> \<and>
   lookup \<lparr>Environments = Some
       [(''testenv'', \<lparr>Target = ''echo hello'', Environment = [(''TEST_VAR'', ''test_value'')]\<rparr>),
        (''another'', \<lparr>Target = ''pwd'', Environment = [(''PATH'', ''/custom/path'')]\<rparr>)]\<rparr>
      ''TestEnv'' = None \<and>
   length (listNames (projr (fst (LoadConfig yaml_Unmarshal configured_world)))) = 2 \<and>
   stdout (printAvailableEnvironments yaml_Unmarshal configured_world) =
     ''  testenv'' @ newline @ ''  another'' @ newline"
proof -
  let ?m = "[(''testenv'', \<lparr>Target = ''echo hello'', Environment = [(''TEST_VAR'', ''test_value'')]\<rparr>),
        (''another'', \<lparr>Target = ''pwd'', Environment = [(''PATH'', ''/custom/path'')]\<rparr>)]"
  let ?c = "\<lparr>Environments = Some ?m\<rparr>"
  have d: "distinct (listNames ?c)" by (simp add: listNames_def entries_def)
  have i: "(''testenv'', \<lparr>Target = ''echo hello'', Environment = [(''TEST_VAR'', ''test_value'')]\<rparr>)
      \<in> set (entries ?c)" by (simp add: entries_def)
  have n: "''TestEnv'' \<notin> set (listNames ?c)" by (simp add: listNames_def entries_def)
  have h: "GetConfigPath configured_world = Inr ''/home/u/.cs/config.yaml'' \<and>
    files configured_world ''/home/u/.cs/config.yaml'' = Some sample_config \<and>
    ''/home/u/.cs/config.yaml'' \<notin> read_fault configured_world \<and>
    yaml_Unmarshal sample_config = Inr ?c \<and> Environments ?c = Some ?m"
    by (simp add: configured_config_path configured_file sample_parsed)
      (simp add: configured_world_def fresh_world_def)
  note t = lookup_and_listNames [of ?c "''testenv''" _ configured_world
      "''/home/u/.cs/config.yaml''" sample_config yaml_Unmarshal ?c ?m]
  note t' = lookup_and_listNames [of ?c "''TestEnv''"]
  from t [THEN conjunct1, THEN mp, OF d] i
  have "lookup ?c ''testenv'' =
     Some \<lparr>Target = ''echo hello'', Environment = [(''TEST_VAR'', ''test_value'')]\<rparr>" by simp
  moreover from t' [THEN conjunct2, THEN conjunct1] n
  have "lookup ?c ''TestEnv'' = None" by simp
  moreover from t [THEN conjunct2, THEN conjunct2, THEN mp, OF h]
  have "length (listNames (projr (fst (LoadConfig yaml_Unmarshal configured_world)))) = 2"
    and "stdout (printAvailableEnvironments yaml_Unmarshal configured_world) =
     ''  testenv'' @ newline @ ''  another'' @ newline"
    by (simp_all add: Print_def listing_def configured_world_def fresh_world_def)
  ultimately show ?thesis by blast
qed

subsection \<open>What \<open>LoadConfig\<close> leaves as it is\<close>

lemmas load_defs = LoadConfig_def GetConfigPath_def GetConfigDir_def os_UserHomeDir_def
  os_IsNotExist_def os_Stat_def createDefaultConfig_def os_MkdirAll_def os_WriteFile_def
  read_config_def os_ReadFile_def Print_def Println_def Let_def

lemma LoadConfig_Print_fst: "fst (LoadConfig u (Print s w)) = fst (LoadConfig u w)"
  by (simp add: load_defs split: option.splits sum.splits)

lemma LoadConfig_Print_files:
  "files (snd (LoadConfig u (Print s w))) = files (snd (LoadConfig u w))"
  by (simp add: load_defs split: option.splits sum.splits)

lemma LoadConfig_Print_dirs:
  "dirs (snd (LoadConfig u (Print s w))) = dirs (snd (LoadConfig u w))"
  by (simp add: load_defs split: option.splits sum.splits)

lemma LoadConfig_stderr: "stderr (snd (LoadConfig u w)) = stderr w"
  by (simp add: load_defs split: option.splits sum.splits)

lemma LoadConfig_stdout: "prefix (stdout w) (stdout (snd (LoadConfig u w)))"
  by (simp add: load_defs split: option.splits sum.splits)

lemma printAvailable_stderr: "stderr (printAvailableEnvironments u w) = stderr w"
  using LoadConfig_stderr [of u w]
  by (cases "LoadConfig u w"; cases "fst (LoadConfig u w)")
    (simp_all add: printAvailable_loaded printAvailable_failed Print_def)

subsection \<open>Exit status\<close>

lemma main_usage:
  "length (os_Args w) < 2 \<Longrightarrow>
     main u w = (1, printAvailableEnvironments u (Print usage_text w))"
  by (simp add: main_def Let_def Println_def Print_Print usage_text_def)

lemma main_load_failed:
  "2 \<le> length (os_Args w) \<Longrightarrow> LoadConfig u w = (Inl err, w1) \<Longrightarrow>
     main u w = (1, w1\<lparr>stderr := stderr w1 @ ''Failed to load configuration: '' @ Error err
                                @ newline\<rparr>)"
  by (simp add: main_def log_Fatalf_def)

lemma main_not_found:
  "2 \<le> length (os_Args w) \<Longrightarrow> LoadConfig u w = (Inr cfg, w1) \<Longrightarrow>
   lookup cfg (os_Args w ! 1) = None \<Longrightarrow>
     main u w = (1, printAvailableEnvironments u (Print (not_found_text (os_Args w ! 1)) w1))"
  by (simp add: main_def Let_def Println_def Print_Print not_found_text_def)

lemma main_run_failed:
  "2 \<le> length (os_Args w) \<Longrightarrow> LoadConfig u w = (Inr cfg, w1) \<Longrightarrow>
   lookup cfg (os_Args w ! 1) = Some envConfig \<Longrightarrow> Run envConfig w1 = (Some err, w2) \<Longrightarrow>
     main u w = (1, w2\<lparr>stderr := stderr w2 @ ''Failed to run command: '' @ Error err
                                @ newline\<rparr>)"
  by (simp add: main_def log_Fatalf_def)

lemma main_run_ok:
  "2 \<le> length (os_Args w) \<Longrightarrow> LoadConfig u w = (Inr cfg, w1) \<Longrightarrow>
   lookup cfg (os_Args w ! 1) = Some envConfig \<Longrightarrow> Run envConfig w1 = (None, w2) \<Longrightarrow>
     main u w = (0, w2)"
  by (simp add: main_def)

lemma main_exit_zero:
  "(fst (main u w) = 0) =
     (2 \<le> length (os_Args w) \<and>
      (\<exists>cfg envConfig. fst (LoadConfig u w) = Inr cfg \<and>
         lookup cfg (os_Args w ! 1) = Some envConfig \<and>
         fst (Run envConfig (snd (LoadConfig u w))) = None))"
proof (cases "length (os_Args w) < 2")
  case True
  then show ?thesis by (simp add: main_usage)
next
  case False
  then have a: "2 \<le> length (os_Args w)" by simp
  obtain r w1 where l: "LoadConfig u w = (r, w1)" by (cases "LoadConfig u w")
  show ?thesis
  proof (cases r)
    case (Inl err)
    with a l show ?thesis by (simp add: main_load_failed)
  next
    case (Inr cfg)
    show ?thesis
    proof (cases "lookup cfg (os_Args w ! 1)")
      case None
      with a l Inr show ?thesis by (simp add: main_not_found)
    next
      case (Some envConfig)
      obtain x w2 where r: "Run envConfig w1 = (x, w2)" by (cases "Run envConfig w1")
      with a l Inr Some show ?thesis
        by (cases x) (simp_all add: main_run_failed main_run_ok)
    qed
  qed
qed

lemma main_exit_le: "fst (main u w) \<le> 1"
  by (simp add: main_def Let_def log_Fatalf_def split: sum.splits option.splits prod.splits)

lemma fresh_load_args:
  "LoadConfig yaml_Unmarshal (fresh_world\<lparr>os_Args := a\<rparr>) =
    (yaml_Unmarshal defaultConfig,
     Print (notices ''/home/u/.cs/config.yaml'')
       (fresh_world\<lparr>os_Args := a, dirs := {''/home'', ''/home/u'', ''/home/u/.cs''},
                    files := [''/home/u/.cs/config.yaml'' \<mapsto> defaultConfig]\<rparr>))"
  by (simp add: load_defs fresh_world_def home_config_path home_config_dir notices_def
      default_parsed blocked_def home_config_parents insert_commute)

lemma configured_load_args:
  "LoadConfig yaml_Unmarshal (configured_world\<lparr>os_Args := a, child := c\<rparr>) =
    (yaml_Unmarshal sample_config, configured_world\<lparr>os_Args := a, child := c\<rparr>)"
  by (simp add: load_defs configured_world_def fresh_world_def home_config_path sample_parsed)

lemma homeless_load:
  "LoadConfig yaml_Unmarshal (fresh_world\<lparr>os_Args := a, home_dir := None\<rparr>) =
    (Inl (HomeDirUnavailable (SysError ''$HOME is not defined'')),
     fresh_world\<lparr>os_Args := a, home_dir := None\<rparr>)"
  by (simp add: load_defs)

lemma echo_hello_fields: "Fields ''echo hello'' = [''echo'', ''hello'']"
  by (simp add: Fields_def leading_space_def space_runes_def flush_def)

lemma echo_hello_run:
  "fst (Run \<lparr>Target = ''echo hello'', Environment = vars\<rparr> w) =
     map_option SysError (child w \<lparr>Name = ''echo'', Args = [''hello''],
       Env = (if vars = [] then None else Some (overlay (environ w) vars))\<rparr>)"
  by (simp add: Run_def echo_hello_fields Let_def cmd_Run_def exec_Command_def)

lemma LoadConfig_stdout_eq: "stdout (snd (LoadConfig u w)) = stdout w @ load_notice w"
  by (simp add: load_defs load_notice_def notices_def split: option.splits sum.splits)

lemma load_notice_Print: "load_notice (Print s w) = load_notice w"
  by (simp add: load_defs load_notice_def split: option.splits sum.splits)

lemma load_notice_loaded:
  assumes "fst (LoadConfig u w) = Inr cfg"
  shows "load_notice (snd (LoadConfig u w)) = []"
proof -
  from assms obtain p where p: "GetConfigPath w = Inr p"
    by (cases "GetConfigPath w") (auto simp: LoadConfig_home_unknown)
  then have g: "GetConfigPath (snd (LoadConfig u w)) = Inr p"
    using GetConfigPath_home [OF LoadConfig_home_dir, of u w] by simp
  from LoadConfig_success_file [OF assms p] obtain data
    where "files (snd (LoadConfig u w)) p = Some data" ..
  then have "os_Stat (snd (LoadConfig u w)) p \<noteq> StatNotExist" by (rule os_Stat_file)
  with g show ?thesis by (simp add: load_notice_def)
qed

lemma LoadConfig_again:
  assumes ok: "fst (LoadConfig u w) = Inr cfg"
  shows "fst (LoadConfig u (snd (LoadConfig u w))) = Inr cfg"
proof -
  from ok obtain p where p: "GetConfigPath w = Inr p"
    by (cases "GetConfigPath w") (auto simp: LoadConfig_home_unknown)
  then have g: "GetConfigPath (snd (LoadConfig u w)) = Inr p"
    using GetConfigPath_home [OF LoadConfig_home_dir, of u w] by simp
  from LoadConfig_success_file [OF ok p] obtain data
    where "files (snd (LoadConfig u w)) p = Some data" ..
  then have s: "os_Stat (snd (LoadConfig u w)) p \<noteq> StatNotExist" by (rule os_Stat_file)
  have "read_config u p (snd (LoadConfig u w)) = Inr cfg"
    using p
  proof (cases rule: LoadConfig_cases [where u = u])
    case present
    with ok show ?thesis by simp
  next
    case (failed err w1)
    with ok show ?thesis by simp
  next
    case (created w1)
    with ok show ?thesis by simp
  qed
  with LoadConfig_present [OF g s, of u] show ?thesis by simp
qed

lemma Run_streams: "stdout (snd (Run e w)) = stdout w \<and> stderr (snd (Run e w)) = stderr w"
  by (simp add: Run_def Let_def cmd_Run_def split: list.splits)

text \<open>
  C6. Without an argument \<open>main\<close> prints the usage and the header, runs the listing
  and exits with status 1: the standard output gains the usage, the header, what
  \<open>LoadConfig\<close> prints, and then the names, one on a line, or the note when the
  configuration cannot be loaded; nothing is logged. With an argument: when the
  configuration cannot be loaded it logs the failure on the standard error stream and
  exits with status 1; when the name is not found it prints the message, the header and
  the names, and exits with status 1 with nothing logged; when \<open>Run\<close> returns an error
  it logs the failure and exits with status 1; when \<open>Run\<close> succeeds it logs nothing and
  exits with status 0. The status is 0 in this last case only, and 1 otherwise.
\<close>

theorem main_exit_status:
  "(length (os_Args w) < 2 \<longrightarrow>
      main u w = (1, printAvailableEnvironments u (Print usage_text w))) \<and>
   (2 \<le> length (os_Args w) \<and> LoadConfig u w = (Inl err, w1) \<longrightarrow>
      main u w = (1, w1\<lparr>stderr := stderr w1 @ ''Failed to load configuration: '' @ Error err
                                 @ newline\<rparr>)) \<and>
   (2 \<le> length (os_Args w) \<and> LoadConfig u w = (Inr cfg, w1) \<and>
    lookup cfg (os_Args w ! 1) = None \<longrightarrow>
      main u w = (1, printAvailableEnvironments u (Print (not_found_text (os_Args w ! 1)) w1))) \<and>
   (2 \<le> length (os_Args w) \<and> LoadConfig u w = (Inr cfg, w1) \<and>
    lookup cfg (os_Args w ! 1) = Some envConfig \<and> Run envConfig w1 = (Some e, w2) \<longrightarrow>
      main u w = (1, w2\<lparr>stderr := stderr w2 @ ''Failed to run command: '' @ Error e
                                 @ newline\<rparr>)) \<and>
   (2 \<le> length (os_Args w) \<and> LoadConfig u w = (Inr cfg, w1) \<and>
    lookup cfg (os_Args w ! 1) = Some envConfig \<and> Run envConfig w1 = (None, w2) \<longrightarrow>
      main u w = (0, w2)) \<and>
   (fst (main u w) = 0) =
     (2 \<le> length (os_Args w) \<and>
      (\<exists>cfg envConfig. fst (LoadConfig u w) = Inr cfg \<and>
         lookup cfg (os_Args w ! 1) = Some envConfig \<and>
         fst (Run envConfig (snd (LoadConfig u w))) = None)) \<and>
   fst (main u w) \<le> 1 \<and>
   (length (os_Args w) < 2 \<longrightarrow>
      stdout (snd (main u w)) =
        stdout w @ usage_text @ load_notice w @
        (case fst (LoadConfig u w) of
           Inl err \<Rightarrow> unable_note err
         | Inr cfg \<Rightarrow> listing (listNames cfg)) \<and>
      stderr (snd (main u w)) = stderr w) \<and>
   (2 \<le> length (os_Args w) \<and> fst (LoadConfig u w) = Inl err \<longrightarrow>
      stdout (snd (main u w)) = stdout w @ load_notice w \<and>
      stderr (snd (main u w)) =
        stderr w @ ''Failed to load configuration: '' @ Error err @ newline) \<and>
   (2 \<le> length (os_Args w) \<and> fst (LoadConfig u w) = Inr cfg \<and>
    lookup cfg (os_Args w ! 1) = None \<longrightarrow>
      stdout (snd (main u w)) =
        stdout w @ load_notice w @ not_found_text (os_Args w ! 1) @ listing (listNames cfg) \<and>
      stderr (snd (main u w)) = stderr w) \<and>
   (2 \<le> length (os_Args w) \<and> fst (LoadConfig u w) = Inr cfg \<and>
    lookup cfg (os_Args w ! 1) = Some envConfig \<longrightarrow>
      stdout (snd (main u w)) = stdout w @ load_notice w \<and>
      stderr (snd (main u w)) =
        stderr w @ (case fst (Run envConfig (snd (LoadConfig u w))) of
                      None \<Rightarrow> []
                    | Some e \<Rightarrow> ''Failed to run command: '' @ Error e @ newline))"
proof -
  have old: "(length (os_Args w) < 2 \<longrightarrow>
      main u w = (1, printAvailableEnvironments u (Print usage_text w))) \<and>
   (2 \<le> length (os_Args w) \<and> LoadConfig u w = (Inl err, w1) \<longrightarrow>
      main u w = (1, w1\<lparr>stderr := stderr w1 @ ''Failed to load configuration: '' @ Error err
                                 @ newline\<rparr>)) \<and>
   (2 \<le> length (os_Args w) \<and> LoadConfig u w = (Inr cfg, w1) \<and>
    lookup cfg (os_Args w ! 1) = None \<longrightarrow>
      main u w = (1, printAvailableEnvironments u (Print (not_found_text (os_Args w ! 1)) w1))) \<and>
   (2 \<le> length (os_Args w) \<and> LoadConfig u w = (Inr cfg, w1) \<and>
    lookup cfg (os_Args w ! 1) = Some envConfig \<and> Run envConfig w1 = (Some e, w2) \<longrightarrow>
      main u w = (1, w2\<lparr>stderr := stderr w2 @ ''Failed to run command: '' @ Error e
                                 @ newline\<rparr>)) \<and>
   (2 \<le> length (os_Args w) \<and> LoadConfig u w = (Inr cfg, w1) \<and>
    lookup cfg (os_Args w ! 1) = Some envConfig \<and> Run envConfig w1 = (None, w2) \<longrightarrow>
      main u w = (0, w2))"
    by (intro conjI impI)
      (simp_all add: main_def Let_def Println_def Print_def log_Fatalf_def usage_text_def
        not_found_text_def)
  have pa: "stdout (printAvailableEnvironments u v) =
      stdout v @ load_notice v @
      (case fst (LoadConfig u v) of
         Inl err \<Rightarrow> unable_note err
       | Inr cfg \<Rightarrow> listing (listNames cfg))"
    and pe: "stderr (printAvailableEnvironments u v) = stderr v" for v
  proof -
    obtain r v1 where l: "LoadConfig u v = (r, v1)" by (cases "LoadConfig u v")
    from LoadConfig_stdout_eq [of u v] LoadConfig_stderr [of u v] l
    have v1: "stdout v1 = stdout v @ load_notice v" "stderr v1 = stderr v" by simp_all
    show "stdout (printAvailableEnvironments u v) =
      stdout v @ load_notice v @
      (case fst (LoadConfig u v) of
         Inl err \<Rightarrow> unable_note err
       | Inr cfg \<Rightarrow> listing (listNames cfg))"
      unfolding printAvailableEnvironments_def l
      by (cases r; simp only: prod.case sum.case fst_conv Print_names;
          simp add: Print_def v1 unable_note_def)
    show "stderr (printAvailableEnvironments u v) = stderr v"
      unfolding printAvailableEnvironments_def l
      by (cases r; simp only: prod.case sum.case fst_conv Print_names;
          simp add: Print_def v1)
  qed
  have usage: "stdout (snd (main u w)) =
        stdout w @ usage_text @ load_notice w @
        (case fst (LoadConfig u w) of
           Inl err \<Rightarrow> unable_note err
         | Inr cfg \<Rightarrow> listing (listNames cfg)) \<and>
      stderr (snd (main u w)) = stderr w" if "length (os_Args w) < 2"
  proof -
    let ?v = "Println ''Available environments:'' (Println ''Usage: cs <environment>'' w)"
    have v: "stdout ?v = stdout w @ usage_text" "stderr ?v = stderr w"
      by (simp_all add: Println_def Print_def usage_text_def)
    have "load_notice ?v = load_notice w" "fst (LoadConfig u ?v) = fst (LoadConfig u w)"
      by (simp_all add: Println_def load_notice_Print LoadConfig_Print_fst)
    with that v pa [of ?v] pe [of ?v] show ?thesis
      by (simp add: main_def Let_def)
  qed
  have failed: "stdout (snd (main u w)) = stdout w @ load_notice w \<and>
      stderr (snd (main u w)) =
        stderr w @ ''Failed to load configuration: '' @ Error err @ newline"
    if "2 \<le> length (os_Args w) \<and> fst (LoadConfig u w) = Inl err"
  proof -
    obtain r v1 where l: "LoadConfig u w = (r, v1)" by (cases "LoadConfig u w")
    from LoadConfig_stdout_eq [of u w] LoadConfig_stderr [of u w] l
    have "stdout v1 = stdout w @ load_notice w" "stderr v1 = stderr w" by simp_all
    with that l show ?thesis by (simp add: main_def log_Fatalf_def)
  qed
  have missing: "stdout (snd (main u w)) =
        stdout w @ load_notice w @ not_found_text (os_Args w ! 1) @ listing (listNames cfg) \<and>
      stderr (snd (main u w)) = stderr w"
    if h: "2 \<le> length (os_Args w) \<and> fst (LoadConfig u w) = Inr cfg \<and>
      lookup cfg (os_Args w ! 1) = None"
  proof -
    obtain r v1 where l: "LoadConfig u w = (r, v1)" by (cases "LoadConfig u w")
    with h have r: "r = Inr cfg" by simp
    from LoadConfig_stdout_eq [of u w] LoadConfig_stderr [of u w] l
    have v1: "stdout v1 = stdout w @ load_notice w" "stderr v1 = stderr w" by simp_all
    let ?v = "Println ''Available environments:''
      (Print (''Environment '' @ [CHR 0x27] @ os_Args w ! 1 @ [CHR 0x27] @ '' not found.''
              @ newline) v1)"
    have v: "stdout ?v = stdout v1 @ not_found_text (os_Args w ! 1)" "stderr ?v = stderr v1"
      by (simp_all add: Println_def Print_def not_found_text_def)
    from h l have ok: "fst (LoadConfig u w) = Inr cfg" and v1': "v1 = snd (LoadConfig u w)"
      by simp_all
    have "load_notice ?v = []" "fst (LoadConfig u ?v) = Inr cfg"
      unfolding v1'
      by (simp_all add: Println_def load_notice_Print LoadConfig_Print_fst
          load_notice_loaded [OF ok] LoadConfig_again [OF ok])
    with h l r v v1 pa [of ?v] pe [of ?v] show ?thesis
      by (simp add: main_def Let_def)
  qed
  have ran: "stdout (snd (main u w)) = stdout w @ load_notice w \<and>
      stderr (snd (main u w)) =
        stderr w @ (case fst (Run envConfig (snd (LoadConfig u w))) of
                      None \<Rightarrow> []
                    | Some e \<Rightarrow> ''Failed to run command: '' @ Error e @ newline)"
    if h: "2 \<le> length (os_Args w) \<and> fst (LoadConfig u w) = Inr cfg \<and>
      lookup cfg (os_Args w ! 1) = Some envConfig"
  proof -
    obtain r v1 where l: "LoadConfig u w = (r, v1)" by (cases "LoadConfig u w")
    with h have r: "r = Inr cfg" by simp
    from LoadConfig_stdout_eq [of u w] LoadConfig_stderr [of u w] l
    have v1: "stdout v1 = stdout w @ load_notice w" "stderr v1 = stderr w" by simp_all
    obtain x v2 where run: "Run envConfig v1 = (x, v2)" by (cases "Run envConfig v1")
    from Run_streams [of envConfig v1] run v1
    have v2: "stdout v2 = stdout w @ load_notice w" "stderr v2 = stderr w" by simp_all
    from h l r run v2 show ?thesis
      by (cases x) (simp_all add: main_def log_Fatalf_def)
  qed
  from old main_exit_zero [of u w] main_exit_le [of u w] usage failed missing ran
  show ?thesis by blast
qed

theorem main_exit_status_witness:
  "fst (main yaml_Unmarshal fresh_world) = 1 \<and>
   fst (main yaml_Unmarshal (fresh_world\<lparr>os_Args := [''cs'', ''glm''], home_dir := None\<rparr>)) = 1 \<and>
   fst (main yaml_Unmarshal (configured_world\<lparr>os_Args := [''cs'', ''missing'']\<rparr>)) = 1 \<and>
   fst (main yaml_Unmarshal (configured_world\<lparr>child := \<lambda>cmd. Some ''exit status 2''\<rparr>)) = 1 \<and>
   fst (main yaml_Unmarshal configured_world) = 0 \<and>
   stdout (snd (main yaml_Unmarshal fresh_world)) =
     ''Usage: cs <environment>'' @ newline @ ''Available environments:'' @ newline @
     ''Created default configuration file: /home/u/.cs/config.yaml'' @ newline @
     ''Please edit the file to add your environment configurations.'' @ newline @
     ''  glm'' @ newline \<and>
   stderr (snd (main yaml_Unmarshal
       (fresh_world\<lparr>os_Args := [''cs'', ''glm''], home_dir := None\<rparr>))) =
     ''Failed to load configuration: failed to get user home directory: $HOME is not defined''
       @ newline \<and>
   stdout (snd (main yaml_Unmarshal (configured_world\<lparr>os_Args := [''cs'', ''missing'']\<rparr>))) =
     ''Environment '' @ [CHR 0x27] @ ''missing'' @ [CHR 0x27] @ '' not found.'' @ newline @
     ''Available environments:'' @ newline @ ''  testenv'' @ newline @ ''  another'' @ newline \<and>
   stderr (snd (main yaml_Unmarshal
       (configured_world\<lparr>child := \<lambda>cmd. Some ''exit status 2''\<rparr>))) =
     ''Failed to run command: exit status 2'' @ newline \<and>
   stdout (snd (main yaml_Unmarshal configured_world)) = [] \<and>
   stderr (snd (main yaml_Unmarshal configured_world)) = []"
proof -
  let ?testenv = "\<lparr>Target = ''echo hello'', Environment = [(''TEST_VAR'', ''test_value'')]\<rparr>"
  have a1: "length (os_Args fresh_world) < 2" by (simp add: fresh_world_def)
  from main_exit_status [of fresh_world yaml_Unmarshal, THEN conjunct1, THEN mp, OF a1]
  have 1: "fst (main yaml_Unmarshal fresh_world) = 1" by simp
  let ?w2 = "fresh_world\<lparr>os_Args := [''cs'', ''glm''], home_dir := None\<rparr>"
  have a2: "2 \<le> length (os_Args ?w2) \<and> LoadConfig yaml_Unmarshal ?w2 =
      (Inl (HomeDirUnavailable (SysError ''$HOME is not defined'')), ?w2)"
    by (simp add: homeless_load)
  from main_exit_status [of ?w2 yaml_Unmarshal, THEN conjunct2, THEN conjunct1, THEN mp, OF a2]
  have 2: "fst (main yaml_Unmarshal ?w2) = 1" by simp
  let ?w3 = "configured_world\<lparr>os_Args := [''cs'', ''missing'']\<rparr>"
  have l3: "LoadConfig yaml_Unmarshal ?w3 = (yaml_Unmarshal sample_config, ?w3)"
    using configured_load_args [where a = "[''cs'', ''missing'']" and c = "child configured_world"] by simp
  have a3: "2 \<le> length (os_Args ?w3) \<and>
      LoadConfig yaml_Unmarshal ?w3 = (Inr (projr (yaml_Unmarshal sample_config)), ?w3) \<and>
      lookup (projr (yaml_Unmarshal sample_config)) (os_Args ?w3 ! 1) = None"
    by (simp add: l3 sample_parsed lookup_def entries_def)
  from main_exit_status [of ?w3 yaml_Unmarshal, THEN conjunct2, THEN conjunct2, THEN conjunct1,
      THEN mp, OF a3]
  have 3: "fst (main yaml_Unmarshal ?w3) = 1" by simp
  let ?w4 = "configured_world\<lparr>child := \<lambda>cmd. Some ''exit status 2''\<rparr>"
  have l4: "LoadConfig yaml_Unmarshal ?w4 = (yaml_Unmarshal sample_config, ?w4)"
    using configured_load_args [where a = "os_Args configured_world"
        and c = "\<lambda>cmd. Some ''exit status 2''"]
    by simp
  have a4: "2 \<le> length (os_Args ?w4) \<and>
      LoadConfig yaml_Unmarshal ?w4 = (Inr (projr (yaml_Unmarshal sample_config)), ?w4) \<and>
      lookup (projr (yaml_Unmarshal sample_config)) (os_Args ?w4 ! 1) = Some ?testenv \<and>
      Run ?testenv ?w4 = (Some (SysError ''exit status 2''), snd (Run ?testenv ?w4))"
    using echo_hello_run [of "[(''TEST_VAR'', ''test_value'')]" ?w4]
    by (simp add: l4 sample_parsed lookup_def entries_def prod_eq_iff)
      (simp add: configured_world_def fresh_world_def)
  from main_exit_status [of ?w4 yaml_Unmarshal, THEN conjunct2, THEN conjunct2, THEN conjunct2,
      THEN conjunct1, THEN mp, OF a4]
  have 4: "fst (main yaml_Unmarshal ?w4) = 1" by simp
  have a5: "2 \<le> length (os_Args configured_world) \<and>
      LoadConfig yaml_Unmarshal configured_world =
        (Inr (projr (yaml_Unmarshal sample_config)), configured_world) \<and>
      lookup (projr (yaml_Unmarshal sample_config)) (os_Args configured_world ! 1) =
        Some ?testenv \<and>
      Run ?testenv configured_world = (None, snd (Run ?testenv configured_world))"
    using echo_hello_run [of "[(''TEST_VAR'', ''test_value'')]" configured_world]
    by (simp add: configured_load sample_parsed lookup_def entries_def prod_eq_iff)
      (simp add: configured_world_def fresh_world_def)
  from main_exit_status [of configured_world yaml_Unmarshal, THEN conjunct2, THEN conjunct2,
      THEN conjunct2, THEN conjunct2, THEN conjunct1, THEN mp, OF a5]
  have 5: "fst (main yaml_Unmarshal configured_world) = 0" by simp
  let ?cfg = "projr (yaml_Unmarshal sample_config)"
  have n1: "load_notice fresh_world = notices ''/home/u/.cs/config.yaml''"
    by (simp add: load_notice_def fresh_config_path fresh_stat fresh_create)
  have n2: "load_notice ?w2 = []" by (simp add: load_notice_def load_defs)
  have n3: "load_notice (configured_world\<lparr>os_Args := a, child := c\<rparr>) = []" for a c
    using GetConfigPath_home [of "configured_world\<lparr>os_Args := a, child := c\<rparr>" configured_world]
      configured_config_path
    by (simp add: load_notice_def os_Stat_def configured_world_def)
  have n3a: "load_notice ?w3 = []"
    using n3 [of "child configured_world" "[''cs'', ''missing'']"] by simp
  have n4: "load_notice ?w4 = []"
    using n3 [of "\<lambda>cmd. Some ''exit status 2''" "os_Args configured_world"] by simp
  have n5: "load_notice configured_world = []"
    using n3 [of "child configured_world" "os_Args configured_world"] by simp
  have 6: "stdout (snd (main yaml_Unmarshal fresh_world)) =
     ''Usage: cs <environment>'' @ newline @ ''Available environments:'' @ newline @
     ''Created default configuration file: /home/u/.cs/config.yaml'' @ newline @
     ''Please edit the file to add your environment configurations.'' @ newline @
     ''  glm'' @ newline"
    using main_exit_status [of fresh_world yaml_Unmarshal, THEN conjunct2, THEN conjunct2, THEN conjunct2, THEN conjunct2, THEN conjunct2, THEN conjunct2, THEN conjunct2, THEN conjunct1,
        THEN mp, OF a1, THEN conjunct1]
    by (simp add: n1 fresh_load default_parsed listing_def listNames_def entries_def
        usage_text_def notices_def) (simp add: fresh_world_def)
  have b2: "2 \<le> length (os_Args ?w2) \<and> fst (LoadConfig yaml_Unmarshal ?w2) =
      Inl (HomeDirUnavailable (SysError ''$HOME is not defined''))"
    by (simp add: homeless_load)
  have 7: "stderr (snd (main yaml_Unmarshal ?w2)) =
     ''Failed to load configuration: failed to get user home directory: $HOME is not defined''
       @ newline"
    using main_exit_status [of ?w2 yaml_Unmarshal, THEN conjunct2, THEN conjunct2, THEN conjunct2, THEN conjunct2, THEN conjunct2, THEN conjunct2, THEN conjunct2, THEN conjunct2, THEN conjunct1,
        THEN mp, OF b2, THEN conjunct2]
    by (simp add: fresh_world_def)
  have b3: "2 \<le> length (os_Args ?w3) \<and> fst (LoadConfig yaml_Unmarshal ?w3) = Inr ?cfg \<and>
      lookup ?cfg (os_Args ?w3 ! 1) = None"
    by (simp add: l3 sample_parsed lookup_def entries_def)
  have 8: "stdout (snd (main yaml_Unmarshal ?w3)) =
     ''Environment '' @ [CHR 0x27] @ ''missing'' @ [CHR 0x27] @ '' not found.'' @ newline @
     ''Available environments:'' @ newline @ ''  testenv'' @ newline @ ''  another'' @ newline"
    using main_exit_status [of ?w3 yaml_Unmarshal, THEN conjunct2, THEN conjunct2, THEN conjunct2, THEN conjunct2, THEN conjunct2, THEN conjunct2, THEN conjunct2, THEN conjunct2, THEN conjunct2, THEN conjunct1,
        THEN mp, OF b3, THEN conjunct1]
    by (simp add: n3a sample_parsed listing_def listNames_def entries_def not_found_text_def)
      (simp add: configured_world_def fresh_world_def)
  have b4: "2 \<le> length (os_Args ?w4) \<and> fst (LoadConfig yaml_Unmarshal ?w4) = Inr ?cfg \<and>
      lookup ?cfg (os_Args ?w4 ! 1) = Some ?testenv"
    by (simp add: l4 sample_parsed lookup_def entries_def)
      (simp add: configured_world_def fresh_world_def)
  have 9: "stderr (snd (main yaml_Unmarshal ?w4)) = ''Failed to run command: exit status 2'' @ newline"
    using main_exit_status [of ?w4 yaml_Unmarshal, THEN conjunct2, THEN conjunct2, THEN conjunct2, THEN conjunct2, THEN conjunct2, THEN conjunct2, THEN conjunct2, THEN conjunct2, THEN conjunct2, THEN conjunct2, THEN mp, OF b4,
        THEN conjunct2]
      echo_hello_run [of "[(''TEST_VAR'', ''test_value'')]" ?w4]
    by (simp add: l4) (simp add: configured_world_def fresh_world_def)
  have b5: "2 \<le> length (os_Args configured_world) \<and>
      fst (LoadConfig yaml_Unmarshal configured_world) = Inr ?cfg \<and>
      lookup ?cfg (os_Args configured_world ! 1) = Some ?testenv"
    by (simp add: configured_load sample_parsed lookup_def entries_def)
      (simp add: configured_world_def fresh_world_def)
  have 10: "stdout (snd (main yaml_Unmarshal configured_world)) = [] \<and>
      stderr (snd (main yaml_Unmarshal configured_world)) = []"
    using main_exit_status [of configured_world yaml_Unmarshal, THEN conjunct2, THEN conjunct2, THEN conjunct2, THEN conjunct2, THEN conjunct2, THEN conjunct2, THEN conjunct2, THEN conjunct2, THEN conjunct2, THEN conjunct2, THEN mp, OF b5]
      echo_hello_run [of "[(''TEST_VAR'', ''test_value'')]" configured_world]
    by (simp add: n5 configured_load) (simp add: configured_world_def fresh_world_def)
  have "stdout (snd (main yaml_Unmarshal fresh_world)) =
     ''Usage: cs <environment>'' @ newline @ ''Available environments:'' @ newline @
     ''Created default configuration file: /home/u/.cs/config.yaml'' @ newline @
     ''Please edit the file to add your environment configurations.'' @ newline @
     ''  glm'' @ newline"
    by (simp add: main_def printAvailableEnvironments_def load_defs fresh_world_def
        home_config_path home_config_dir default_parsed listNames_def entries_def
        blocked_def home_config_parents)
  moreover have "stdout (snd (main yaml_Unmarshal ?w3)) =
     ''Environment '' @ [CHR 0x27] @ ''missing'' @ [CHR 0x27] @ '' not found.'' @ newline @
     ''Available environments:'' @ newline @ ''  testenv'' @ newline @ ''  another'' @ newline"
    by (simp add: main_def printAvailableEnvironments_def load_defs configured_world_def
        fresh_world_def home_config_path sample_parsed listNames_def entries_def lookup_def)
  ultimately show ?thesis using 1 2 3 4 5 6 7 8 9 10 by blast
qed

subsection \<open>The listing loads the configuration\<close>

lemma LoadConfig_creates:
  assumes "GetConfigPath w = Inr p" and "os_Stat w p = StatNotExist"
    and "fst (createDefaultConfig p w) = None"
  shows "files (snd (LoadConfig u w)) = (files w)(p \<mapsto> defaultConfig)"
    and "dirs (snd (LoadConfig u w)) =
      insert (filepath_Dir p) (dirs w \<union> set (parents (filepath_Dir p)))"
proof -
  from assms(3) obtain w1 where c: "createDefaultConfig p w = (None, w1)"
    by (cases "createDefaultConfig p w") auto
  from LoadConfig_absent_created [OF assms(1,2) c, of u] createDefaultConfig_ok [OF c]
  show "files (snd (LoadConfig u w)) = (files w)(p \<mapsto> defaultConfig)"
    and "dirs (snd (LoadConfig u w)) =
      insert (filepath_Dir p) (dirs w \<union> set (parents (filepath_Dir p)))"
    by (simp_all add: Print_def)
qed

text \<open>
  C9. In a run without an argument, and in a run whose name is not found, the final
  state is that of the listing, which goes through \<open>LoadConfig\<close> (once more, in the
  second case): the files and directories after \<open>main\<close> are those after \<open>LoadConfig\<close>.
  So when the configuration file is absent and its creation is not refused, these runs
  leave the default file at the resolved path, and its directory with all the parents
  of that directory on disk.
\<close>

theorem listing_creates_default_config:
  "length (os_Args w) < 2 \<or>
     (fst (LoadConfig u w) = Inr cfg \<and> lookup cfg (os_Args w ! 1) = None) \<Longrightarrow>
   (\<exists>w'. snd (main u w) = printAvailableEnvironments u w' \<and>
      files (snd (LoadConfig u w')) = files (snd (LoadConfig u w)) \<and>
      dirs (snd (LoadConfig u w')) = dirs (snd (LoadConfig u w))) \<and>
   files (snd (main u w)) = files (snd (LoadConfig u w)) \<and>
   dirs (snd (main u w)) = dirs (snd (LoadConfig u w)) \<and>
   (GetConfigPath w = Inr p \<and> os_Stat w p = StatNotExist \<and>
    fst (createDefaultConfig p w) = None \<longrightarrow>
      files (snd (main u w)) = (files w)(p \<mapsto> defaultConfig) \<and>
      dirs (snd (main u w)) =
        insert (filepath_Dir p) (dirs w \<union> set (parents (filepath_Dir p))))"
proof -
  assume h: "length (os_Args w) < 2 \<or>
     (fst (LoadConfig u w) = Inr cfg \<and> lookup cfg (os_Args w ! 1) = None)"
  have pa: "files (printAvailableEnvironments u v) = files (snd (LoadConfig u v)) \<and>
      dirs (printAvailableEnvironments u v) = dirs (snd (LoadConfig u v))" for v
  proof -
    obtain r v1 where l: "LoadConfig u v = (r, v1)" by (cases "LoadConfig u v")
    show ?thesis
      unfolding printAvailableEnvironments_def l
      by (cases r; simp only: prod.case sum.case fst_conv snd_conv Print_names;
          simp add: Print_def)
  qed
  have e: "\<exists>w'. snd (main u w) = printAvailableEnvironments u w' \<and>
      files (snd (LoadConfig u w')) = files (snd (LoadConfig u w)) \<and>
      dirs (snd (LoadConfig u w')) = dirs (snd (LoadConfig u w))"
  proof (cases "length (os_Args w) < 2")
    case True
    then have "snd (main u w) = printAvailableEnvironments u (Print usage_text w)"
      by (simp add: main_def Let_def Println_def Print_def usage_text_def)
    then show ?thesis
      by (intro exI [of _ "Print usage_text w"])
        (simp add: LoadConfig_Print_files LoadConfig_Print_dirs)
  next
    case False
    with h have a: "2 \<le> length (os_Args w)" and l: "fst (LoadConfig u w) = Inr cfg"
      and n: "lookup cfg (os_Args w ! 1) = None" by auto
    from l obtain w1 where l': "LoadConfig u w = (Inr cfg, w1)"
      by (cases "LoadConfig u w") simp
    from a n have "snd (main u w) =
        printAvailableEnvironments u (Print (not_found_text (os_Args w ! 1)) w1)"
      by (simp add: main_def l' Let_def Println_def Print_def not_found_text_def)
    with LoadConfig_twice [OF l] l' show ?thesis
      by (intro exI [of _ "Print (not_found_text (os_Args w ! 1)) w1"])
        (simp add: LoadConfig_Print_files LoadConfig_Print_dirs)
  qed
  then obtain w' where w': "snd (main u w) = printAvailableEnvironments u w'"
    "files (snd (LoadConfig u w')) = files (snd (LoadConfig u w))"
    "dirs (snd (LoadConfig u w')) = dirs (snd (LoadConfig u w))" by blast
  from pa [of w'] w'
  have f: "files (snd (main u w)) = files (snd (LoadConfig u w))"
    and d: "dirs (snd (main u w)) = dirs (snd (LoadConfig u w))" by simp_all
  have c: "files (snd (LoadConfig u w)) = (files w)(p \<mapsto> defaultConfig) \<and>
      dirs (snd (LoadConfig u w)) =
        insert (filepath_Dir p) (dirs w \<union> set (parents (filepath_Dir p)))"
    if "GetConfigPath w = Inr p" and "os_Stat w p = StatNotExist"
      and "fst (createDefaultConfig p w) = None"
    using that
    by (auto simp: LoadConfig_def os_IsNotExist_def createDefaultConfig_def os_MkdirAll_def
        os_WriteFile_def Let_def Println_def Print_def split: if_splits prod.splits)
  from e f d c show ?thesis by simp
qed

theorem listing_creates_default_config_witness:
  "files (snd (main yaml_Unmarshal fresh_world)) =
     [''/home/u/.cs/config.yaml'' \<mapsto> defaultConfig] \<and>
   dirs (snd (main yaml_Unmarshal fresh_world)) = {''/home'', ''/home/u'', ''/home/u/.cs''} \<and>
   files (snd (main yaml_Unmarshal (fresh_world\<lparr>os_Args := [''cs'', ''missing'']\<rparr>))) =
     [''/home/u/.cs/config.yaml'' \<mapsto> defaultConfig] \<and>
   dirs (snd (main yaml_Unmarshal (fresh_world\<lparr>os_Args := [''cs'', ''missing'']\<rparr>))) =
     {''/home'', ''/home/u'', ''/home/u/.cs''}"
proof -
  let ?p = "''/home/u/.cs/config.yaml''"
  let ?w = "fresh_world\<lparr>os_Args := [''cs'', ''missing'']\<rparr>"
  let ?cfg = "projr (yaml_Unmarshal defaultConfig)"
  have a: "length (os_Args fresh_world) < 2 \<or>
     (fst (LoadConfig yaml_Unmarshal fresh_world) = Inr ?cfg \<and>
      lookup ?cfg (os_Args fresh_world ! 1) = None)"
    by (simp add: fresh_world_def)
  have c: "GetConfigPath fresh_world = Inr ?p \<and> os_Stat fresh_world ?p = StatNotExist \<and>
    fst (createDefaultConfig ?p fresh_world) = None"
    by (simp add: fresh_config_path fresh_stat fresh_create)
  have b: "length (os_Args ?w) < 2 \<or>
     (fst (LoadConfig yaml_Unmarshal ?w) = Inr ?cfg \<and> lookup ?cfg (os_Args ?w ! 1) = None)"
    by (simp add: fresh_load_args default_parsed lookup_def entries_def)
  have d: "GetConfigPath ?w = Inr ?p \<and> os_Stat ?w ?p = StatNotExist \<and>
    fst (createDefaultConfig ?p ?w) = None"
    using GetConfigPath_home [of ?w fresh_world] fresh_config_path
    by (simp add: os_Stat_def createDefaultConfig_def home_config_dir os_MkdirAll_def
        os_WriteFile_def fresh_world_def blocked_def home_config_parents)
  have "dirs (snd (main yaml_Unmarshal fresh_world)) = {''/home'', ''/home/u'', ''/home/u/.cs''}"
    by (simp add: main_def printAvailableEnvironments_def load_defs fresh_world_def
        home_config_path home_config_dir default_parsed blocked_def home_config_parents
        insert_commute listNames_def entries_def)
  with listing_creates_default_config [OF a, of ?p, THEN conjunct2, THEN conjunct2,
      THEN conjunct2, THEN mp, OF c]
    listing_creates_default_config [OF b, of ?p, THEN conjunct2, THEN conjunct2,
      THEN conjunct2, THEN mp, OF d]
  show ?thesis by (simp add: fresh_world_def home_config_dir home_config_parents insert_commute)
qed

subsection \<open>A load error during the listing\<close>

text \<open>
  C10. When \<open>LoadConfig\<close> fails inside the listing, the listing prints the note in
  parentheses and returns; nothing is written to the standard error stream. A run
  without an argument then still exits with status 1 after the usage, its output
  ending with the note, and not through \<open>log.Fatalf\<close>: the standard error stream is
  as it was. A run whose name is not found exits with status 1 in the same way, with
  nothing logged.
\<close>

theorem listing_swallows_load_error:
  "(fst (LoadConfig u w) = Inl err \<longrightarrow>
      printAvailableEnvironments u w = Print (unable_note err) (snd (LoadConfig u w)) \<and>
      stderr (printAvailableEnvironments u w) = stderr w) \<and>
   (length (os_Args w) < 2 \<and> fst (LoadConfig u w) = Inl err \<longrightarrow>
      fst (main u w) = 1 \<and> stderr (snd (main u w)) = stderr w \<and>
      prefix (stdout w @ usage_text) (stdout (snd (main u w))) \<and>
      suffix (unable_note err) (stdout (snd (main u w)))) \<and>
   (2 \<le> length (os_Args w) \<and> fst (LoadConfig u w) = Inr cfg \<and>
    lookup cfg (os_Args w ! 1) = None \<longrightarrow>
      fst (main u w) = 1 \<and> stderr (snd (main u w)) = stderr w)"
proof (intro conjI impI)
  assume f: "fst (LoadConfig u w) = Inl err"
  then have "LoadConfig u w = (Inl err, snd (LoadConfig u w))"
    by (cases "LoadConfig u w") simp
  then show "printAvailableEnvironments u w = Print (unable_note err) (snd (LoadConfig u w))"
    by (rule printAvailable_failed)
  show "stderr (printAvailableEnvironments u w) = stderr w" by (rule printAvailable_stderr)
next
  assume h: "length (os_Args w) < 2 \<and> fst (LoadConfig u w) = Inl err"
  let ?w = "Print usage_text w"
  from h have m: "main u w = (1, printAvailableEnvironments u ?w)" by (simp add: main_usage)
  from h have "fst (LoadConfig u ?w) = Inl err" by (simp add: LoadConfig_Print_fst)
  then have l: "LoadConfig u ?w = (Inl err, snd (LoadConfig u ?w))"
    by (cases "LoadConfig u ?w") simp
  note p = printAvailable_failed [OF l]
  from m show "fst (main u w) = 1" by simp
  from m show "stderr (snd (main u w)) = stderr w"
    by (simp add: printAvailable_stderr Print_def)
  from LoadConfig_stdout [of ?w u]
  show "prefix (stdout w @ usage_text) (stdout (snd (main u w)))"
    unfolding m p by (auto simp: Print_def prefix_def)
  show "suffix (unable_note err) (stdout (snd (main u w)))"
    unfolding m p by (simp add: Print_def suffix_def)
next
  assume h: "2 \<le> length (os_Args w) \<and> fst (LoadConfig u w) = Inr cfg \<and>
    lookup cfg (os_Args w ! 1) = None"
  then have l: "LoadConfig u w = (Inr cfg, snd (LoadConfig u w))"
    by (cases "LoadConfig u w") simp
  from h main_not_found [OF _ l] 
  have m: "main u w = (1, printAvailableEnvironments u
      (Print (not_found_text (os_Args w ! 1)) (snd (LoadConfig u w))))" by simp
  from m show "fst (main u w) = 1" by simp
  from m show "stderr (snd (main u w)) = stderr w"
    by (simp add: printAvailable_stderr Print_def LoadConfig_stderr)
qed
theorem listing_swallows_load_error_witness:
  "fst (main yaml_Unmarshal (fresh_world\<lparr>os_Args := [''cs''], home_dir := None\<rparr>)) = 1 \<and>
   stderr (snd (main yaml_Unmarshal (fresh_world\<lparr>os_Args := [''cs''], home_dir := None\<rparr>))) = [] \<and>
   suffix (''  (Unable to load config: failed to get user home directory: $HOME is not defined)''
           @ newline)
     (stdout (snd (main yaml_Unmarshal (fresh_world\<lparr>os_Args := [''cs''], home_dir := None\<rparr>)))) \<and>
   fst (main yaml_Unmarshal (configured_world\<lparr>os_Args := [''cs'', ''missing'']\<rparr>)) = 1 \<and>
   stderr (snd (main yaml_Unmarshal (configured_world\<lparr>os_Args := [''cs'', ''missing'']\<rparr>))) = []"
proof -
  let ?w = "fresh_world\<lparr>os_Args := [''cs''], home_dir := None\<rparr>"
  let ?err = "HomeDirUnavailable (SysError ''$HOME is not defined'')"
  have a: "length (os_Args ?w) < 2 \<and> fst (LoadConfig yaml_Unmarshal ?w) = Inl ?err"
    by (simp add: homeless_load)
  let ?v = "configured_world\<lparr>os_Args := [''cs'', ''missing'']\<rparr>"
  let ?cfg = "projr (yaml_Unmarshal sample_config)"
  have l: "LoadConfig yaml_Unmarshal ?v = (yaml_Unmarshal sample_config, ?v)"
    using configured_load_args [where a = "[''cs'', ''missing'']" and c = "child configured_world"] by simp
  have b: "2 \<le> length (os_Args ?v) \<and> fst (LoadConfig yaml_Unmarshal ?v) = Inr ?cfg \<and>
    lookup ?cfg (os_Args ?v ! 1) = None"
    by (simp add: l sample_parsed lookup_def entries_def)
  from listing_swallows_load_error [of yaml_Unmarshal ?w ?err, THEN conjunct2, THEN conjunct1,
      THEN mp, OF a]
    listing_swallows_load_error [of yaml_Unmarshal ?v _ ?cfg, THEN conjunct2, THEN conjunct2,
      THEN mp, OF b]
  show ?thesis by (simp add: unable_note_def fresh_world_def configured_world_def)
qed
subsection \<open>The default file\<close>

lemma LoadConfig_default:
  assumes p: "GetConfigPath w = Inr p" and s: "os_Stat w p = StatNotExist"
    and c: "fst (createDefaultConfig p w) = None" and r: "p \<notin> read_fault w"
    and u: "u defaultConfig = Inr cfg" and n: "Environments cfg \<noteq> None"
  shows "fst (LoadConfig u w) = Inr cfg"
proof -
  from c obtain w1 where c1: "createDefaultConfig p w = (None, w1)"
    by (cases "createDefaultConfig p w") auto
  from createDefaultConfig_ok [OF c1] r
  have "os_ReadFile (Print (notices p) w1) p = Inr defaultConfig"
    by (simp add: os_ReadFile_def Print_def)
  from read_config_nil [where u = u and data = defaultConfig and c = cfg, OF this u] n
    LoadConfig_absent_created [OF p s c1, of u]
  show ?thesis by simp
qed

text \<open>
  C3, as amended. The default file defines one environment, \<open>glm\<close>, with the target
  \<open>claude\<close> and nine variables of distinct names. When the configuration file is
  absent and neither its creation nor its reading is refused, \<open>LoadConfig\<close> leaves the
  default file at the resolved path and returns the configuration with the one key
  \<open>glm\<close>.
\<close>

theorem default_config_defines_glm:
  "yaml_Unmarshal defaultConfig = Inr \<lparr>Environments = Some [(''glm'', default_glm)]\<rparr> \<and>
   Target default_glm = ''claude'' \<and> length (Environment default_glm) = 9 \<and>
   distinct (map fst (Environment default_glm)) \<and>
   (GetConfigPath w = Inr p \<and> os_Stat w p = StatNotExist \<and>
    fst (createDefaultConfig p w) = None \<and> p \<notin> read_fault w \<longrightarrow>
      files (snd (LoadConfig yaml_Unmarshal w)) p = Some defaultConfig \<and>
      fst (LoadConfig yaml_Unmarshal w) = Inr \<lparr>Environments = Some [(''glm'', default_glm)]\<rparr> \<and>
      lookup \<lparr>Environments = Some [(''glm'', default_glm)]\<rparr> ''glm'' = Some default_glm)"
proof (intro conjI impI)
  show d: "yaml_Unmarshal defaultConfig = Inr \<lparr>Environments = Some [(''glm'', default_glm)]\<rparr>"
    by (simp add: default_parsed default_glm_def)
  assume h: "GetConfigPath w = Inr p \<and> os_Stat w p = StatNotExist \<and>
    fst (createDefaultConfig p w) = None \<and> p \<notin> read_fault w"
  then show "files (snd (LoadConfig yaml_Unmarshal w)) p = Some defaultConfig"
    by (simp add: LoadConfig_creates)
  from h show "fst (LoadConfig yaml_Unmarshal w) =
      Inr \<lparr>Environments = Some [(''glm'', default_glm)]\<rparr>"
    using LoadConfig_default [where u = yaml_Unmarshal and w = w and p = p
        and cfg = "\<lparr>Environments = Some [(''glm'', default_glm)]\<rparr>"] d
    by simp
qed (simp_all add: default_glm_def lookup_def entries_def)

theorem default_config_defines_glm_witness:
  "fst (LoadConfig yaml_Unmarshal fresh_world) =
     Inr \<lparr>Environments = Some [(''glm'', default_glm)]\<rparr> \<and>
   files (snd (LoadConfig yaml_Unmarshal fresh_world)) ''/home/u/.cs/config.yaml'' =
     Some defaultConfig"
proof -
  have h: "GetConfigPath fresh_world = Inr ''/home/u/.cs/config.yaml'' \<and>
    os_Stat fresh_world ''/home/u/.cs/config.yaml'' = StatNotExist \<and>
    fst (createDefaultConfig ''/home/u/.cs/config.yaml'' fresh_world) = None \<and>
    ''/home/u/.cs/config.yaml'' \<notin> read_fault fresh_world"
    by (simp add: fresh_config_path fresh_stat fresh_create) (simp add: fresh_world_def)
  from default_config_defines_glm [of fresh_world "''/home/u/.cs/config.yaml''",
      THEN conjunct2, THEN conjunct2, THEN conjunct2, THEN conjunct2, THEN mp, OF h]
  show ?thesis by simp
qed

text \<open>
  C3, as stated, asks for exactly eight variables; the environment \<open>glm\<close> of the
  default file does not have eight.
\<close>

theorem default_config_not_eight_variables:
  "\<not> (case yaml_Unmarshal defaultConfig of
        Inl err \<Rightarrow> False
      | Inr cfg \<Rightarrow>
          (case lookup cfg ''glm'' of
             None \<Rightarrow> False
           | Some e \<Rightarrow> length (Environment e) = 8))"
  by (simp add: default_parsed lookup_def entries_def)

end
